theory Spec2Isabelle
  imports Main "HOL-Library.Sublist"
begin

section \<open>The command line of the analyzer\<close>

text \<open>
  The program is \<^verbatim>\<open>main.py\<close>: \<^verbatim>\<open>setup_argparse\<close> builds an
  \<^verbatim>\<open>argparse.ArgumentParser\<close>, \<^verbatim>\<open>main\<close> calls its \<^verbatim>\<open>parse_args()\<close> on
  \<^verbatim>\<open>sys.argv[1:]\<close> and hands the namespace to \<^verbatim>\<open>analyze_code\<close>, which checks the
  directory and calls \<^verbatim>\<open>run_tool\<close> once for each selected tool.

  The parser is the standard library's. Its behaviour on the parser that
  \<^verbatim>\<open>setup_argparse\<close> builds is embedded here function by function from CPython 3.11's
  \<^verbatim>\<open>argparse.py\<close> (\<^verbatim>\<open>_parse_optional\<close>, \<^verbatim>\<open>_get_option_tuples\<close>,
  \<^verbatim>\<open>_parse_known_args\<close> with its \<^verbatim>\<open>consume_optional\<close> and \<^verbatim>\<open>consume_positionals\<close>,
  \<^verbatim>\<open>parse_args\<close>, \<^verbatim>\<open>error\<close>), specialised to the facts that every optional of this
  parser takes no argument (\<^verbatim>\<open>nargs=0\<close>), that the only positional takes exactly one, that
  the prefix character is \<^verbatim>\<open>-\<close> and that abbreviations are allowed (the defaults).
  A command-line string is a \<open>string\<close>; characters are read as code points below 256.
\<close>

subsection \<open>The parser built by \<^verbatim>\<open>setup_argparse\<close>\<close>

definition VERSION :: string where
  "VERSION = ''1.0.0''"

text \<open>
  The actions of the optionals. \<^verbatim>\<open>ArgumentParser(...)\<close> is created with the default
  \<^verbatim>\<open>add_help=True\<close>, so \<^verbatim>\<open>-h\<close> and \<^verbatim>\<open>--help\<close> are registered first, before the
  five \<^verbatim>\<open>add_argument\<close> calls for the optionals.
\<close>

datatype action = Help | Store_bandit | Store_flake8 | Store_pylint | Store_pyre | Version

definition setup_argparse :: "(string \<times> action) list" where
  "setup_argparse =
     [(''-h'', Help), (''--help'', Help),
      (''--bandit'', Store_bandit), (''--flake8'', Store_flake8),
      (''--pylint'', Store_pylint), (''--pyre'', Store_pyre),
      (''--version'', Version)]"

text \<open>The namespace: \<^verbatim>\<open>directory\<close> is \<^verbatim>\<open>None\<close> until the positional is parsed.\<close>

record namespace =
  directory :: "string option"
  bandit :: bool
  flake8 :: bool
  pylint :: bool
  pyre :: bool

definition default_namespace :: namespace where
  "default_namespace =
     \<lparr>directory = None, bandit = False, flake8 = False, pylint = False, pyre = False\<rparr>"

text \<open>
  What the parser prints when it ends the process, and the exit status it passes to
  \<^verbatim>\<open>sys.exit\<close>. \<^verbatim>\<open>error(message)\<close> prints the usage and the message to standard
  error and exits with status 2; the help and version actions print to standard output and
  call \<^verbatim>\<open>exit()\<close>, whose default status is 0. The messages are kept as data, not as
  formatted text; \<open>Version_text\<close> carries the text handed to the formatter.
\<close>

datatype usage_error =
    Ambiguous_option string "string list"
  | Unexpected_option_string string
  | Ignored_explicit_argument action string
  | Required_arguments "string list"
  | Unrecognized_arguments "string list"

datatype parser_output = Usage_error usage_error | Help_text | Version_text string

datatype system_exit = SystemExit int parser_output

definition parser_error :: "usage_error \<Rightarrow> system_exit" where
  "parser_error message = SystemExit 2 (Usage_error message)"

subsection \<open>Classifying one argument string: \<^verbatim>\<open>_parse_optional\<close>\<close>

text \<open>\<^verbatim>\<open>s.partition('=')\<close>: the part before the first \<^verbatim>\<open>=\<close>, and the part after it if
  there is one.\<close>

fun partition_eq :: "string \<Rightarrow> string \<times> string option" where
  "partition_eq [] = ([], None)"
| "partition_eq (c # cs) =
     (if c = CHR ''='' then ([], Some cs)
      else (case partition_eq cs of (h, t) \<Rightarrow> (c # h, t)))"

text \<open>
  An option tuple is \<^verbatim>\<open>(action, option_string, sep, explicit_arg)\<close>; the action is
  \<open>None\<close> for an option string the parser does not know.
\<close>

type_synonym option_tuple = "action option \<times> string \<times> string option \<times> string option"

definition get_option_tuples :: "string \<Rightarrow> usage_error + option_tuple list" where
  "get_option_tuples option_string =
     (case option_string of
        c0 # c1 # short_explicit_arg \<Rightarrow>
          if c0 = CHR ''-'' \<and> c1 = CHR ''-'' then
            (case partition_eq option_string of
               (option_prefix, None) \<Rightarrow>
                 Inr (map (\<lambda>(s, a). (Some a, s, None, None))
                        (filter (\<lambda>(s, a). prefix option_prefix s) setup_argparse))
             | (option_prefix, Some explicit_arg) \<Rightarrow>
                 Inr (map (\<lambda>(s, a). (Some a, s, Some ''='', Some explicit_arg))
                        (filter (\<lambda>(s, a). prefix option_prefix s) setup_argparse)))
          else if c0 = CHR ''-'' \<and> c1 \<noteq> CHR ''-'' then
            Inr (concat (map (\<lambda>(s, a).
                   if s = [c0, c1] then [(Some a, s, Some '''', Some short_explicit_arg)]
                   else if prefix option_string s then [(Some a, s, None, None)]
                   else []) setup_argparse))
          else Inl (Unexpected_option_string option_string)
      | _ \<Rightarrow> Inl (Unexpected_option_string option_string))"

text \<open>
  \<^verbatim>\<open>_negative_number_matcher\<close> is \<^verbatim>\<open>^-\d+$|^-\d*\.\d+$\<close>; Python's \<^verbatim>\<open>$\<close> also
  matches before one final newline.
\<close>

definition is_digit :: "char \<Rightarrow> bool" where
  "is_digit c = (c \<in> set ''0123456789'')"

definition strip_final_newline :: "string \<Rightarrow> string" where
  "strip_final_newline s = (if s \<noteq> [] \<and> last s = CHR 0x0A then butlast s else s)"

definition negative_number_matcher :: "string \<Rightarrow> bool" where
  "negative_number_matcher s =
     (case s of
        [] \<Rightarrow> False
      | c # t \<Rightarrow>
          c = CHR ''-'' \<and>
          (let b = strip_final_newline t;
               ds = takeWhile is_digit b;
               r = dropWhile is_digit b
           in (ds \<noteq> [] \<and> r = []) \<or>
              (case r of
                 [] \<Rightarrow> False
               | d # es \<Rightarrow> d = CHR ''.'' \<and> es \<noteq> [] \<and> list_all is_digit es)))"

text \<open>
  \<open>Inr None\<close>: the string is a positional. \<open>Inr (Some t)\<close>: it is an optional, known or
  not. \<open>Inl e\<close>: \<^verbatim>\<open>self.error\<close> was called (an ambiguous abbreviation).
\<close>

definition parse_optional :: "string \<Rightarrow> usage_error + option_tuple option" where
  "parse_optional arg_string =
     (if arg_string = [] then Inr None
      else if hd arg_string \<noteq> CHR ''-'' then Inr None
      else (case map_of setup_argparse arg_string of
        Some a \<Rightarrow> Inr (Some (Some a, arg_string, None, None))
      | None \<Rightarrow>
          if length arg_string = 1 then Inr None
          else (case partition_eq arg_string of (option_string, explicit_arg) \<Rightarrow>
            if explicit_arg \<noteq> None \<and> map_of setup_argparse option_string \<noteq> None
            then Inr (Some (map_of setup_argparse option_string, option_string,
                            Some ''='', explicit_arg))
            else (case get_option_tuples arg_string of
              Inl e \<Rightarrow> Inl e
            | Inr option_tuples \<Rightarrow>
                if length option_tuples > 1
                then Inl (Ambiguous_option arg_string (map (\<lambda>t. fst (snd t)) option_tuples))
                else if length option_tuples = 1 then Inr (Some (hd option_tuples))
                else if negative_number_matcher arg_string then Inr None
                else if CHR '' '' \<in> set arg_string then Inr None
                else Inr (Some (None, arg_string, None, None))))))"

subsection \<open>The pattern of the argument strings\<close>

text \<open>
  \<^verbatim>\<open>_parse_known_args\<close> first classifies every argument string: \<open>Opt\<close> for an optional
  (\<^verbatim>\<open>'O'\<close> in the pattern), \<open>Arg\<close> for an argument (\<^verbatim>\<open>'A'\<close>), \<open>Sep\<close> for the first
  \<^verbatim>\<open>--\<close> (\<^verbatim>\<open>'-'\<close>), after which every string is an argument. An ambiguous
  abbreviation ends the process here, before any action is taken.
\<close>

datatype kind = Arg | Opt option_tuple | Sep

type_synonym item = "string \<times> kind"

fun arg_strings_pattern :: "string list \<Rightarrow> usage_error + item list" where
  "arg_strings_pattern [] = Inr []"
| "arg_strings_pattern (arg_string # rest) =
     (if arg_string = ''--'' then Inr ((arg_string, Sep) # map (\<lambda>s. (s, Arg)) rest)
      else case parse_optional arg_string of
        Inl e \<Rightarrow> Inl e
      | Inr option_tuple \<Rightarrow>
          (case arg_strings_pattern rest of
             Inl e \<Rightarrow> Inl e
           | Inr items \<Rightarrow>
               Inr ((arg_string, (case option_tuple of None \<Rightarrow> Arg | Some t \<Rightarrow> Opt t))
                    # items)))"

subsection \<open>Consuming optionals and positionals\<close>

text \<open>
  \<^verbatim>\<open>consume_optional\<close>. Every optional of this parser has \<^verbatim>\<open>nargs=0\<close>, so
  \<^verbatim>\<open>match_argument\<close> always returns 0. The loop runs again only inside a cluster of
  single-dash options such as \<^verbatim>\<open>-hh\<close>. The result is the list of actions to take, in
  order, and the strings added to \<^verbatim>\<open>extras\<close>; \<open>Inl\<close> is the \<^verbatim>\<open>ArgumentError\<close>
  that \<^verbatim>\<open>parse_known_args\<close> turns into \<^verbatim>\<open>error\<close>. A separator is true in Python
  when it is a non-empty string.
\<close>

definition truthy :: "string option \<Rightarrow> bool" where
  "truthy sep = (sep \<noteq> None \<and> sep \<noteq> Some [])"

definition single_dash :: "string \<Rightarrow> bool" where
  "single_dash option_string =
     (case option_string of c0 # c1 # rest \<Rightarrow> c1 \<noteq> CHR ''-'' | _ \<Rightarrow> False)"

function consume_optional ::
  "string \<Rightarrow> option_tuple \<Rightarrow> action list \<Rightarrow> usage_error + action list \<times> string list" where
  "consume_optional arg_string (action, option_string, sep, explicit_arg) action_tuples =
     (case action of
        None \<Rightarrow> Inr ([], [arg_string])
      | Some a \<Rightarrow>
          (case explicit_arg of
             None \<Rightarrow> Inr (action_tuples @ [a], [])
           | Some [] \<Rightarrow> Inl (Ignored_explicit_argument a [])
           | Some (c # cs) \<Rightarrow>
               if single_dash option_string then
                 if truthy sep \<or> c = CHR ''-'' then Inl (Ignored_explicit_argument a (c # cs))
                 else (case map_of setup_argparse [hd option_string, c] of
                    Some a' \<Rightarrow>
                      (case cs of
                         [] \<Rightarrow>
                           consume_optional arg_string
                             (Some a', [hd option_string, c], None, None) (action_tuples @ [a])
                       | d # ds \<Rightarrow>
                           if d = CHR ''=''
                           then consume_optional arg_string
                             (Some a', [hd option_string, c], Some ''='', Some ds)
                             (action_tuples @ [a])
                           else consume_optional arg_string
                             (Some a', [hd option_string, c], Some [], Some (d # ds))
                             (action_tuples @ [a]))
                  | None \<Rightarrow> Inr (action_tuples @ [a], [hd option_string # c # cs]))
               else Inl (Ignored_explicit_argument a (c # cs))))"
  by pat_completeness auto
termination
  by (relation "measure (\<lambda>(arg_string, (action, option_string, sep, explicit_arg), ts).
        case explicit_arg of None \<Rightarrow> 0 | Some e \<Rightarrow> Suc (length e))") auto

text \<open>
  The actions. \<^verbatim>\<open>_HelpAction\<close> prints the help and calls \<^verbatim>\<open>parser.exit()\<close>;
  \<^verbatim>\<open>_VersionAction\<close> prints \<^verbatim>\<open>"%(prog)s {VERSION}"\<close> with the program name filled
  in and calls \<^verbatim>\<open>parser.exit()\<close>; \<^verbatim>\<open>store_true\<close> sets its flag.
\<close>

fun take_action :: "string \<Rightarrow> action \<Rightarrow> namespace \<Rightarrow> system_exit + namespace" where
  "take_action prog Help ns = Inl (SystemExit 0 Help_text)"
| "take_action prog Version ns = Inl (SystemExit 0 (Version_text (prog @ '' '' @ VERSION)))"
| "take_action prog Store_bandit ns = Inr (ns\<lparr>bandit := True\<rparr>)"
| "take_action prog Store_flake8 ns = Inr (ns\<lparr>flake8 := True\<rparr>)"
| "take_action prog Store_pylint ns = Inr (ns\<lparr>pylint := True\<rparr>)"
| "take_action prog Store_pyre ns = Inr (ns\<lparr>pyre := True\<rparr>)"

fun take_actions :: "string \<Rightarrow> action list \<Rightarrow> namespace \<Rightarrow> system_exit + namespace" where
  "take_actions prog [] ns = Inr ns"
| "take_actions prog (a # as) ns =
     (case take_action prog a ns of
        Inl x \<Rightarrow> Inl x
      | Inr ns' \<Rightarrow> take_actions prog as ns')"

text \<open>
  \<^verbatim>\<open>consume_positionals\<close>: the pattern of the one positional is \<^verbatim>\<open>(-*A-*)\<close>, matched
  at the head of the remaining pattern. The pattern of the argument strings holds at most
  one \<^verbatim>\<open>-\<close>, so a match is \<^verbatim>\<open>A-\<close>, \<^verbatim>\<open>A\<close> or \<^verbatim>\<open>-A\<close>; \<^verbatim>\<open>_get_values\<close> removes
  the \<^verbatim>\<open>--\<close> and the remaining string is the directory. Nothing is matched once the
  positional has been parsed.
\<close>

fun match_positional :: "item list \<Rightarrow> (string \<times> item list) option" where
  "match_positional ((s, Arg) # (s', Sep) # rest) = Some (s, rest)"
| "match_positional ((s, Arg) # rest) = Some (s, rest)"
| "match_positional ((s', Sep) # (s, Arg) # rest) = Some (s, rest)"
| "match_positional items = None"

definition consume_positionals :: "namespace \<Rightarrow> item list \<Rightarrow> namespace \<times> item list" where
  "consume_positionals ns items =
     (if directory ns \<noteq> None then (ns, items)
      else (case match_positional items of
              None \<Rightarrow> (ns, items)
            | Some (s, rest) \<Rightarrow> (ns\<lparr>directory := Some s\<rparr>, rest)))"

subsection \<open>\<^verbatim>\<open>parse_known_args\<close> and \<^verbatim>\<open>parse_args\<close>\<close>

definition is_option :: "item \<Rightarrow> bool" where
  "is_option it = (case snd it of Opt t \<Rightarrow> True | _ \<Rightarrow> False)"

text \<open>
  The main loop of \<^verbatim>\<open>_parse_known_args\<close> runs while an option string lies ahead. At an
  optional it consumes it and takes its actions. At an argument it consumes the positional
  if that is still to be parsed (the match is the one \<^verbatim>\<open>A\<close>, since an \<^verbatim>\<open>A\<close> or an
  \<^verbatim>\<open>O\<close> follows); otherwise the arguments up to the next optional go to
  \<^verbatim>\<open>extras\<close>, here one at a time. It returns the namespace, the extras and the
  items behind the last optional.
\<close>

fun consume_loop ::
  "string \<Rightarrow> item list \<Rightarrow> namespace \<Rightarrow> string list \<Rightarrow>
   system_exit + namespace \<times> string list \<times> item list" where
  "consume_loop prog [] ns extras = Inr (ns, extras, [])"
| "consume_loop prog ((s, k) # items) ns extras =
     (if \<not> list_ex is_option ((s, k) # items) then Inr (ns, extras, (s, k) # items)
      else (case k of
        Opt t \<Rightarrow>
          (case consume_optional s t [] of
             Inl e \<Rightarrow> Inl (parser_error e)
           | Inr (actions, added) \<Rightarrow>
               (case take_actions prog actions ns of
                  Inl x \<Rightarrow> Inl x
                | Inr ns' \<Rightarrow> consume_loop prog items ns' (extras @ added)))
      | _ \<Rightarrow>
          if directory ns = None
          then consume_loop prog items (ns\<lparr>directory := Some s\<rparr>) extras
          else consume_loop prog items ns (extras @ [s])))"

text \<open>
  After the loop the positional is consumed behind the last optional, what is left goes to
  \<^verbatim>\<open>extras\<close>, and a missing required argument is an error. \<^verbatim>\<open>parse_args\<close> then
  rejects any extras.
\<close>

definition parse_known_args :: "string \<Rightarrow> string list \<Rightarrow> system_exit + namespace \<times> string list" where
  "parse_known_args prog args =
     (case arg_strings_pattern args of
        Inl e \<Rightarrow> Inl (parser_error e)
      | Inr items \<Rightarrow>
          (case consume_loop prog items default_namespace [] of
             Inl x \<Rightarrow> Inl x
           | Inr (ns, extras, rest) \<Rightarrow>
               (case consume_positionals ns rest of
                  (ns', rest') \<Rightarrow>
                    if directory ns' = None
                    then Inl (parser_error (Required_arguments [''directory'']))
                    else Inr (ns', extras @ map fst rest'))))"

definition parse_args :: "string \<Rightarrow> string list \<Rightarrow> system_exit + namespace" where
  "parse_args prog args =
     (case parse_known_args prog args of
        Inl x \<Rightarrow> Inl x
      | Inr (ns, argv) \<Rightarrow>
          if argv \<noteq> [] then Inl (parser_error (Unrecognized_arguments argv))
          else Inr ns)"

section \<open>Running the tools\<close>

subsection \<open>The environment and the observable effects\<close>

text \<open>
  What the program observes of the outside: whether a path is a directory
  (\<^verbatim>\<open>Path(directory).is_dir()\<close>) and what \<^verbatim>\<open>subprocess.run(command, check=True,
  capture_output=True, text=True)\<close> does for a command line. The call either completes
  with a return code and the captured standard output and standard error, or raises an
  exception of its own before there is a return code (\<^verbatim>\<open>FileNotFoundError\<close> for a tool
  that is not installed, for instance). With \<^verbatim>\<open>check=True\<close> a completed call with a
  non-zero return code raises \<^verbatim>\<open>CalledProcessError\<close>, which \<^verbatim>\<open>run_tool\<close> catches.
  Only exceptions derived from \<^verbatim>\<open>Exception\<close> are modelled.
\<close>

datatype exn = FileNotFoundError string | RuntimeError string | Other_exception string

fun str :: "exn \<Rightarrow> string" where
  "str (FileNotFoundError m) = m"
| "str (RuntimeError m) = m"
| "str (Other_exception m) = m"

datatype run_result = Completed int string string | Raises exn

record env =
  is_dir :: "string \<Rightarrow> bool"
  subprocess_run :: "string list \<Rightarrow> run_result"

text \<open>
  What the process does to the outside: the records it logs (level and message, without the
  time stamp), the command lines it hands to \<^verbatim>\<open>subprocess.run\<close>, in order, and what
  the parser printed.
\<close>

datatype level = INFO | ERROR

record world =
  logged :: "(level \<times> string) list"
  spawned :: "string list list"
  stdio :: "parser_output list"

definition start :: world where
  "start = \<lparr>logged = [], spawned = [], stdio = []\<rparr>"

definition logger :: "level \<Rightarrow> string \<Rightarrow> world \<Rightarrow> world" where
  "logger lvl msg w = w\<lparr>logged := logged w @ [(lvl, msg)]\<rparr>"

text \<open>\<^verbatim>\<open>sep.join(xs)\<close>.\<close>

fun join :: "string \<Rightarrow> string list \<Rightarrow> string" where
  "join sep [] = []"
| "join sep [x] = x"
| "join sep (x # y # ys) = x @ sep @ join sep (y # ys)"

subsection \<open>\<^verbatim>\<open>run_tool\<close>\<close>

text \<open>
  A step either returns (\<open>Inr ()\<close>) or raises (\<open>Inl e\<close>), and leaves a new world.
\<close>

type_synonym step = "world \<Rightarrow> (exn + unit) \<times> world"

definition run_tool :: "env \<Rightarrow> string list \<Rightarrow> step" where
  "run_tool env command w =
     (let w1 = logger INFO (''Running command: '' @ join '' '' command) w;
          w2 = w1\<lparr>spawned := spawned w1 @ [command]\<rparr>
      in case subprocess_run env command of
           Completed returncode out err \<Rightarrow>
             if returncode = 0
             then (Inr (), logger INFO (''Command output:'' @ [CHR 0x0A] @ out) w2)
             else (Inl (RuntimeError (''Error running command: '' @ join '' '' command)),
                   logger ERROR (''Command failed with error:'' @ [CHR 0x0A] @ err) w2)
         | Raises e \<Rightarrow> (Inl e, w2))"

subsection \<open>\<^verbatim>\<open>analyze_code\<close>\<close>

text \<open>
  Statements in sequence: the second runs only if the first returned. \<open>if_then\<close> is an
  \<^verbatim>\<open>if\<close> without \<^verbatim>\<open>else\<close>.
\<close>

definition and_then :: "step \<Rightarrow> step \<Rightarrow> step" where
  "and_then f g w = (case f w of (Inl e, w') \<Rightarrow> (Inl e, w') | (Inr u, w') \<Rightarrow> g w')"

definition if_then :: "bool \<Rightarrow> step \<Rightarrow> step" where
  "if_then b f w = (if b then f w else (Inr (), w))"

definition analyze_code :: "env \<Rightarrow> string \<Rightarrow> bool \<Rightarrow> bool \<Rightarrow> bool \<Rightarrow> bool \<Rightarrow> step" where
  "analyze_code env dir use_bandit use_flake8 use_pylint use_pyre w =
     (if \<not> is_dir env dir
      then (Inl (FileNotFoundError (''Directory not found: '' @ dir)),
            logger ERROR (''Directory does not exist: '' @ dir) w)
      else and_then (if_then use_bandit (run_tool env [''bandit'', ''-r'', dir]))
          (and_then (if_then use_flake8 (run_tool env [''flake8'', dir]))
          (and_then (if_then use_pylint (run_tool env [''pylint'', dir]))
                    (if_then use_pyre (run_tool env [''pyre'', ''check''])))) w)"

subsection \<open>\<^verbatim>\<open>main\<close>\<close>

text \<open>
  \<^verbatim>\<open>parse_args\<close> is called outside the \<^verbatim>\<open>try\<close>, and \<^verbatim>\<open>SystemExit\<close> is not an
  \<^verbatim>\<open>Exception\<close>: when the parser exits, the process ends with the parser's status.
  Otherwise \<^verbatim>\<open>analyze_code\<close> runs inside the \<^verbatim>\<open>try\<close>; any exception is logged and
  the process exits with status 1, and when nothing is raised \<^verbatim>\<open>main\<close> returns and the
  status is 0. The result is the exit status and the final world. A namespace returned by
  the parser always has its directory (lemma \<open>parse_args_directory\<close> below); the case
  without one is \<^verbatim>\<open>Path(None)\<close>, a \<^verbatim>\<open>TypeError\<close> inside the \<^verbatim>\<open>try\<close>.
\<close>

definition handle :: "(exn + unit) \<times> world \<Rightarrow> int \<times> world" where
  "handle r =
     (case r of
        (Inl e, w) \<Rightarrow> (1, logger ERROR (''An error occurred: '' @ str e) w)
      | (Inr u, w) \<Rightarrow> (0, w))"

definition main :: "env \<Rightarrow> string \<Rightarrow> string list \<Rightarrow> int \<times> world" where
  "main env prog argv =
     (case parse_args prog argv of
        Inl (SystemExit status out) \<Rightarrow> (status, start\<lparr>stdio := [out]\<rparr>)
      | Inr args \<Rightarrow>
          (case directory args of
             None \<Rightarrow>
               handle (Inl (Other_exception
                 ''expected str, bytes or os.PathLike object, not NoneType''), start)
           | Some dir \<Rightarrow>
               handle (analyze_code env dir (bandit args) (flake8 args) (pylint args)
                         (pyre args) start)))"

section \<open>Notions used in the statements\<close>

text \<open>
  The commands of the selected tools in the declared order bandit, flake8, pylint, pyre,
  as a list; \<open>run_all\<close> runs a list of commands one after the other until one raises.
  Lemma \<open>analyze_code_run_all\<close> shows that this is what \<^verbatim>\<open>analyze_code\<close> does in an
  existing directory.
\<close>

definition selected_commands :: "string \<Rightarrow> bool \<Rightarrow> bool \<Rightarrow> bool \<Rightarrow> bool \<Rightarrow> string list list" where
  "selected_commands dir use_bandit use_flake8 use_pylint use_pyre =
     (if use_bandit then [[''bandit'', ''-r'', dir]] else []) @
     (if use_flake8 then [[''flake8'', dir]] else []) @
     (if use_pylint then [[''pylint'', dir]] else []) @
     (if use_pyre then [[''pyre'', ''check'']] else [])"

fun run_all :: "env \<Rightarrow> string list list \<Rightarrow> step" where
  "run_all env [] w = (Inr (), w)"
| "run_all env (c # cs) w = and_then (run_tool env c) (run_all env cs) w"

text \<open>The child process of a command exits with status zero, or with another status.\<close>

definition succeeds :: "env \<Rightarrow> string list \<Rightarrow> bool" where
  "succeeds env c =
     (case subprocess_run env c of Completed rc out err \<Rightarrow> rc = 0 | Raises e \<Rightarrow> False)"

definition exits_nonzero :: "env \<Rightarrow> string list \<Rightarrow> bool" where
  "exits_nonzero env c =
     (case subprocess_run env c of Completed rc out err \<Rightarrow> rc \<noteq> 0 | Raises e \<Rightarrow> False)"

text \<open>The commands of a list that are attempted: up to and including the first that does
  not succeed.\<close>

fun attempted :: "env \<Rightarrow> string list list \<Rightarrow> string list list" where
  "attempted env [] = []"
| "attempted env (c # cs) = c # (if succeeds env c then attempted env cs else [])"

text \<open>The exit status of the process and the command lines it spawned.\<close>

definition exit_status :: "int \<times> world \<Rightarrow> int" where
  "exit_status r = fst r"

definition spawns :: "int \<times> world \<Rightarrow> string list list" where
  "spawns r = spawned (snd r)"

definition logs :: "int \<times> world \<Rightarrow> (level \<times> string) list" where
  "logs r = logged (snd r)"

definition prints :: "int \<times> world \<Rightarrow> parser_output list" where
  "prints r = stdio (snd r)"

text \<open>
  An environment for examples: \<^verbatim>\<open>src\<close> is the only directory, every tool exits with
  status 0 except \<^verbatim>\<open>flake8 src\<close>, which exits with the given status.
\<close>

definition example_env :: "int \<Rightarrow> env" where
  "example_env rc =
     \<lparr>is_dir = (\<lambda>d. d = ''src''),
      subprocess_run = (\<lambda>c. Completed (if c = [''flake8'', ''src''] then rc else 0)
                              ''out'' ''err'')\<rparr>"

text \<open>An environment in which no tool is installed: starting one raises.\<close>

definition missing_tools_env :: env where
  "missing_tools_env =
     \<lparr>is_dir = (\<lambda>d. d = ''src''),
      subprocess_run =
        (\<lambda>c. Raises (FileNotFoundError ''[Errno 2] No such file or directory''))\<rparr>"

text \<open>
  Kinds of argument strings, as the statements about the parser name them. A tool flag is
  one of the four tool options written out in full; a plain string does not start with
  \<^verbatim>\<open>-\<close>, so it can only be a positional. An unknown flag is a string that
  \<^verbatim>\<open>_parse_optional\<close> takes for an optional of no action: it starts with \<^verbatim>\<open>-\<close>, is
  neither an option string of the parser nor an abbreviation of one, does not look like a
  negative number and holds no space. A string is ambiguous when \<^verbatim>\<open>_parse_optional\<close>
  calls \<^verbatim>\<open>error\<close> for it (an abbreviation of several options, such as \<^verbatim>\<open>--p\<close>).
\<close>

definition tool_flag :: "string \<Rightarrow> bool" where
  "tool_flag s = (s \<in> set [''--bandit'', ''--flake8'', ''--pylint'', ''--pyre''])"

definition plain :: "string \<Rightarrow> bool" where
  "plain s = (case s of [] \<Rightarrow> True | c # cs \<Rightarrow> c \<noteq> CHR ''-'')"

definition unknown_flag :: "string \<Rightarrow> bool" where
  "unknown_flag s = (parse_optional s = Inr (Some (None, s, None, None)))"

definition ambiguous :: "string \<Rightarrow> bool" where
  "ambiguous s = (case parse_optional s of Inl e \<Rightarrow> True | Inr t \<Rightarrow> False)"

text \<open>
  What \<^verbatim>\<open>consume_optional\<close> does with an argument string that is an optional: \<open>None\<close>
  for a string that is no optional. The string takes an action when that action is among
  those \<^verbatim>\<open>consume_optional\<close> returns for it (\<^verbatim>\<open>-h\<close>, \<^verbatim>\<open>--help\<close>, \<^verbatim>\<open>--he\<close> and
  \<^verbatim>\<open>-hx\<close> take the help action; \<^verbatim>\<open>--version\<close> and \<^verbatim>\<open>--ver\<close> take the version
  action). It is refused when \<^verbatim>\<open>consume_optional\<close> raises the \<^verbatim>\<open>ArgumentError\<close> for
  a value given to an option that takes none (\<^verbatim>\<open>--bandit=1\<close>, \<^verbatim>\<open>--version=1\<close>,
  \<^verbatim>\<open>-h=x\<close>): such a string takes no action.
\<close>

definition consumed :: "string \<Rightarrow> (usage_error + action list \<times> string list) option" where
  "consumed s =
     (case parse_optional s of
        Inl e \<Rightarrow> None
      | Inr None \<Rightarrow> None
      | Inr (Some t) \<Rightarrow> Some (consume_optional s t []))"

definition takes :: "string \<Rightarrow> action \<Rightarrow> bool" where
  "takes s a =
     (case consumed s of
        Some (Inr (actions, added)) \<Rightarrow> a \<in> set actions
      | _ \<Rightarrow> False)"

definition refused :: "string \<Rightarrow> bool" where
  "refused s = (case consumed s of Some (Inl e) \<Rightarrow> True | _ \<Rightarrow> False)"

text \<open>
  The options region of a command line is what stands before the first \<^verbatim>\<open>--\<close>. The
  arguments of a command line are the strings that can fill a positional (\<^verbatim>\<open>A\<close> in the
  pattern): in the options region the strings that \<^verbatim>\<open>_parse_optional\<close> takes for
  positionals, and every string behind the first \<^verbatim>\<open>--\<close>. The \<^verbatim>\<open>--\<close> itself is
  no argument.
\<close>

definition options_region :: "string list \<Rightarrow> string list" where
  "options_region argv = takeWhile (\<lambda>s. s \<noteq> ''--'') argv"

definition arguments :: "string list \<Rightarrow> string list" where
  "arguments argv =
     filter (\<lambda>s. parse_optional s = Inr None) (options_region argv)
     @ drop 1 (dropWhile (\<lambda>s. s \<noteq> ''--'') argv)"

section \<open>Running a sequence of tools\<close>

lemma run_tool_spawned: "spawned (snd (run_tool env c w)) = spawned w @ [c]"
  by (simp add: run_tool_def logger_def Let_def split: run_result.splits)

lemma run_tool_returns: "(fst (run_tool env c w) = Inr ()) = succeeds env c"
  by (simp add: run_tool_def succeeds_def Let_def split: run_result.splits)

lemma run_tool_raises: "\<not> succeeds env c \<Longrightarrow> \<exists>e. fst (run_tool env c w) = Inl e"
  by (simp add: run_tool_def succeeds_def Let_def split: run_result.splits)

lemma and_then_Inr: "fst (f w) = Inr u \<Longrightarrow> and_then f g w = g (snd (f w))"
  by (cases "f w") (simp add: and_then_def)

lemma and_then_Inl: "fst (f w) = Inl e \<Longrightarrow> and_then f g w = f w"
  by (cases "f w") (simp add: and_then_def)

lemma and_then_assoc: "and_then (and_then f g) h w = and_then f (and_then g h) w"
  by (simp add: and_then_def split: prod.splits sum.splits)

lemma run_all_append:
  "run_all env (xs @ ys) w = and_then (run_all env xs) (run_all env ys) w"
proof (induction xs arbitrary: w)
  case Nil
  show ?case by (simp add: and_then_def)
next
  case (Cons c cs)
  have "run_all env ((c # cs) @ ys) w = and_then (run_tool env c) (run_all env (cs @ ys)) w"
    by simp
  also have "run_all env (cs @ ys) = and_then (run_all env cs) (run_all env ys)"
    using Cons.IH by (intro ext)
  also have "and_then (run_tool env c) (and_then (run_all env cs) (run_all env ys)) w
      = and_then (and_then (run_tool env c) (run_all env cs)) (run_all env ys) w"
    by (simp add: and_then_assoc)
  also have "and_then (run_tool env c) (run_all env cs) = run_all env (c # cs)"
    by (intro ext) simp
  finally show ?case .
qed

lemma run_all_single: "run_all env [c] w = run_tool env c w"
  by (simp add: and_then_def split: prod.splits sum.splits)

lemma run_all_append_fun:
  "run_all env (xs @ ys) = and_then (run_all env xs) (run_all env ys)"
  by (intro ext) (rule run_all_append)

lemma if_then_run_all: "if_then b (run_tool env c) = run_all env (if b then [c] else [])"
  by (intro ext) (simp add: if_then_def run_all_single del: run_all.simps(2))

text \<open>In an existing directory \<^verbatim>\<open>analyze_code\<close> runs the selected commands in order.\<close>

lemma analyze_code_run_all:
  "is_dir env d \<Longrightarrow> analyze_code env d b f p y w = run_all env (selected_commands d b f p y) w"
  unfolding analyze_code_def selected_commands_def if_then_run_all
  by (simp only: run_all_append_fun if_True if_False simp_thms)

lemma analyze_code_no_dir:
  "\<not> is_dir env d \<Longrightarrow>
   analyze_code env d b f p y w =
     (Inl (FileNotFoundError (''Directory not found: '' @ d)),
      logger ERROR (''Directory does not exist: '' @ d) w)"
  by (simp add: analyze_code_def)

lemma run_all_step_ok:
  "succeeds env c \<Longrightarrow> run_all env (c # cs) w = run_all env cs (snd (run_tool env c w))"
  using run_tool_returns [of env c w] by (simp add: and_then_Inr)

lemma run_all_step_fail:
  "\<not> succeeds env c \<Longrightarrow> run_all env (c # cs) w = run_tool env c w"
  using run_tool_raises [of env c w] by (auto simp: and_then_Inl)

lemma run_all_spawned:
  "spawned (snd (run_all env cs w)) = spawned w @ attempted env cs"
proof (induction cs arbitrary: w)
  case Nil
  show ?case by simp
next
  case (Cons c cs)
  show ?case
  proof (cases "succeeds env c")
    case True
    then show ?thesis
      using Cons.IH [of "snd (run_tool env c w)"]
      by (simp add: run_all_step_ok run_tool_spawned del: run_all.simps)
  next
    case False
    then show ?thesis
      by (simp add: run_all_step_fail run_tool_spawned del: run_all.simps)
  qed
qed

lemma run_all_returns:
  "(fst (run_all env cs w) = Inr ()) = (\<forall>c \<in> set cs. succeeds env c)"
proof (induction cs arbitrary: w)
  case Nil
  show ?case by simp
next
  case (Cons c cs)
  show ?case
  proof (cases "succeeds env c")
    case True
    then show ?thesis
      using Cons.IH [of "snd (run_tool env c w)"]
      by (simp add: run_all_step_ok del: run_all.simps)
  next
    case False
    then show ?thesis
      using run_tool_returns [of env c w]
      by (simp add: run_all_step_fail del: run_all.simps)
  qed
qed

text \<open>The run ends in the \<^verbatim>\<open>run_tool\<close> call of an attempted command that does not succeed.\<close>

lemma run_all_ends_at_failure:
  "c \<in> set (attempted env cs) \<Longrightarrow> \<not> succeeds env c \<Longrightarrow>
   \<exists>w'. run_all env cs w = run_tool env c w'"
proof (induction cs arbitrary: w)
  case Nil
  then show ?case by simp
next
  case (Cons x xs)
  show ?case
  proof (cases "succeeds env x")
    case True
    with Cons.prems have "c \<in> set (attempted env xs)" by auto
    from Cons.IH [OF this Cons.prems(2)] True show ?thesis
      by (simp add: run_all_step_ok del: run_all.simps)
  next
    case False
    with Cons.prems have "c = x" by simp
    with False show ?thesis
      by (auto simp: run_all_step_fail simp del: run_all.simps)
  qed
qed

lemma attempted_all:
  "\<forall>c \<in> set (attempted env cs). succeeds env c \<Longrightarrow> attempted env cs = cs"
  by (induction cs) (auto split: if_splits)

lemma attempted_subset: "set (attempted env cs) \<subseteq> set cs"
  by (induction cs) auto

lemma attempted_distinct: "distinct cs \<Longrightarrow> distinct (attempted env cs)"
  using attempted_subset [of env] by (induction cs) auto

lemma attempted_stops:
  "distinct (pre @ c # post) \<Longrightarrow> c \<in> set (attempted env (pre @ c # post)) \<Longrightarrow>
   \<not> succeeds env c \<Longrightarrow> attempted env (pre @ c # post) = pre @ [c]"
  by (induction pre) (auto split: if_splits)

lemma selected_commands_distinct: "distinct (selected_commands d b f p y)"
  by (simp add: selected_commands_def)

lemma distinct_count_list: "distinct xs \<Longrightarrow> count_list xs c \<le> 1"
  by (induction xs) (auto simp: count_list_0_iff)

subsection \<open>The process after a successful parse\<close>

lemma main_parsed:
  "parse_args prog argv = Inr args \<Longrightarrow> directory args = Some d \<Longrightarrow>
   main env prog argv =
     handle (analyze_code env d (bandit args) (flake8 args) (pylint args) (pyre args) start)"
  by (simp add: main_def)

lemma handle_status: "exit_status (handle r) = (if fst r = Inr () then 0 else 1)"
  by (cases r; cases "fst r") (auto simp: handle_def exit_status_def)

lemma handle_spawns: "spawns (handle r) = spawned (snd r)"
  by (cases r; cases "fst r") (auto simp: handle_def spawns_def logger_def)

lemma handle_logs_Inl:
  "fst r = Inl e \<Longrightarrow> logs (handle r) = logged (snd r) @ [(ERROR, ''An error occurred: '' @ str e)]"
  by (cases r) (auto simp: handle_def logs_def logger_def)

lemma main_spawns_dir:
  "parse_args prog argv = Inr args \<Longrightarrow> directory args = Some d \<Longrightarrow> is_dir env d \<Longrightarrow>
   spawns (main env prog argv) =
     attempted env (selected_commands d (bandit args) (flake8 args) (pylint args) (pyre args))"
  by (simp add: main_parsed handle_spawns analyze_code_run_all run_all_spawned start_def)

lemma main_status_dir:
  "parse_args prog argv = Inr args \<Longrightarrow> directory args = Some d \<Longrightarrow> is_dir env d \<Longrightarrow>
   exit_status (main env prog argv) =
     (if \<forall>c \<in> set (selected_commands d (bandit args) (flake8 args) (pylint args) (pyre args)).
           succeeds env c
      then 0 else 1)"
  by (simp add: main_parsed handle_status analyze_code_run_all run_all_returns)

section \<open>Claims about the orchestration\<close>

text \<open>
  C1 (fail-fast). In an existing directory, for any flags: when the child process of a
  selected tool was spawned and exits with a non-zero status, the process exits with
  status 1, the spawned commands are the selected ones up to and including that tool, and
  no tool selected after it in the sequence bandit, flake8, pylint, pyre is spawned.
\<close>

theorem fail_fast:
  assumes "parse_args prog argv = Inr args" and "directory args = Some d"
    and "is_dir env d"
    and "selected_commands d (bandit args) (flake8 args) (pylint args) (pyre args)
           = pre @ c # post"
    and "c \<in> set (spawns (main env prog argv))"
    and "exits_nonzero env c"
  shows "exit_status (main env prog argv) = 1
       \<and> spawns (main env prog argv) = pre @ [c]
       \<and> (\<forall>x \<in> set post. x \<notin> set (spawns (main env prog argv)))"
proof -
  let ?sel = "selected_commands d (bandit args) (flake8 args) (pylint args) (pyre args)"
  have sp: "spawns (main env prog argv) = attempted env ?sel"
    using assms(1-3) by (rule main_spawns_dir)
  have nok: "\<not> succeeds env c"
    using assms(6) by (simp add: exits_nonzero_def succeeds_def split: run_result.splits)
  have dist: "distinct (pre @ c # post)"
    using selected_commands_distinct [of d "bandit args" "flake8 args" "pylint args" "pyre args"]
    by (simp only: assms(4))
  have att: "attempted env (pre @ c # post) = pre @ [c]"
    using dist assms(5) nok unfolding sp assms(4) by (rule attempted_stops)
  have "c \<in> set ?sel" by (simp add: assms(4))
  with nok have st: "exit_status (main env prog argv) = 1"
    using main_status_dir [OF assms(1-3)] by auto
  have later: "\<forall>x \<in> set post. x \<notin> set (pre @ [c])"
    using dist by auto
  show ?thesis
    using st att later unfolding sp assms(4) by simp
qed

theorem fail_fast_witness:
  "exit_status (main (example_env 3) ''main.py''
      [''src'', ''--bandit'', ''--flake8'', ''--pylint'', ''--pyre'']) = 1
   \<and> spawns (main (example_env 3) ''main.py''
      [''src'', ''--bandit'', ''--flake8'', ''--pylint'', ''--pyre''])
       = [[''bandit'', ''-r'', ''src''], [''flake8'', ''src'']]"
proof -
  let ?argv = "[''src'', ''--bandit'', ''--flake8'', ''--pylint'', ''--pyre'']"
  let ?args = "\<lparr>directory = Some ''src'', bandit = True, flake8 = True, pylint = True,
                 pyre = True\<rparr>"
  have p: "parse_args ''main.py'' ?argv = Inr ?args" by code_simp
  have d: "directory ?args = Some ''src''" by simp
  have e: "is_dir (example_env 3) ''src''" by (simp add: example_env_def)
  have s: "selected_commands ''src'' (bandit ?args) (flake8 ?args) (pylint ?args) (pyre ?args)
      = [[''bandit'', ''-r'', ''src'']] @ [''flake8'', ''src'']
          # [[''pylint'', ''src''], [''pyre'', ''check'']]"
    by (simp add: selected_commands_def)
  have m: "[''flake8'', ''src''] \<in> set (spawns (main (example_env 3) ''main.py'' ?argv))"
    by code_simp
  have n: "exits_nonzero (example_env 3) [''flake8'', ''src'']"
    by (simp add: exits_nonzero_def example_env_def)
  show ?thesis
    using fail_fast [OF p d e s m n] by simp
qed

text \<open>
  C2. For a path that is not an existing directory, whatever the four flags are, the
  process exits with status 1 and spawns no child process.
\<close>

theorem missing_directory:
  assumes "parse_args prog argv = Inr args" and "directory args = Some d"
    and "\<not> is_dir env d"
  shows "exit_status (main env prog argv) = 1 \<and> spawns (main env prog argv) = []"
  using assms
  by (simp add: main_parsed analyze_code_no_dir handle_status handle_spawns logger_def
        start_def)

theorem missing_directory_witness:
  "exit_status (main (example_env 0) ''main.py''
      [''nowhere'', ''--bandit'', ''--flake8'', ''--pylint'', ''--pyre'']) = 1
   \<and> spawns (main (example_env 0) ''main.py''
      [''nowhere'', ''--bandit'', ''--flake8'', ''--pylint'', ''--pyre'']) = []"
proof -
  let ?argv = "[''nowhere'', ''--bandit'', ''--flake8'', ''--pylint'', ''--pyre'']"
  let ?args = "\<lparr>directory = Some ''nowhere'', bandit = True, flake8 = True, pylint = True,
                 pyre = True\<rparr>"
  have p: "parse_args ''main.py'' ?argv = Inr ?args" by code_simp
  have d: "directory ?args = Some ''nowhere''" by simp
  have e: "\<not> is_dir (example_env 0) ''nowhere''" by (simp add: example_env_def)
  show ?thesis
    using missing_directory [OF p d e] by simp
qed

text \<open>
  C4. In an existing directory with all four flags set, if every spawned tool exits with
  status zero, the process exits with status 0 after exactly four spawns, in the order
  bandit, flake8, pylint, pyre.
\<close>

theorem all_tools:
  assumes "parse_args prog argv = Inr args" and "directory args = Some d"
    and "is_dir env d"
    and "bandit args" and "flake8 args" and "pylint args" and "pyre args"
    and "\<forall>c \<in> set (spawns (main env prog argv)). succeeds env c"
  shows "exit_status (main env prog argv) = 0
       \<and> spawns (main env prog argv)
           = [[''bandit'', ''-r'', d], [''flake8'', d], [''pylint'', d], [''pyre'', ''check'']]"
proof -
  let ?sel = "selected_commands d (bandit args) (flake8 args) (pylint args) (pyre args)"
  have sel: "?sel = [[''bandit'', ''-r'', d], [''flake8'', d], [''pylint'', d],
                     [''pyre'', ''check'']]"
    using assms(4-7) by (simp add: selected_commands_def)
  have sp: "spawns (main env prog argv) = attempted env ?sel"
    using assms(1-3) by (rule main_spawns_dir)
  have att: "attempted env ?sel = ?sel"
    using assms(8) unfolding sp by (rule attempted_all)
  have "\<forall>c \<in> set ?sel. succeeds env c"
    using assms(8) unfolding sp att .
  then have st: "exit_status (main env prog argv) = 0"
    using main_status_dir [OF assms(1-3)] by simp
  have "spawns (main env prog argv) = ?sel"
    by (simp only: sp att)
  with st show ?thesis
    by (simp only: sel simp_thms)
qed

theorem all_tools_witness:
  "exit_status (main (example_env 0) ''main.py''
      [''--bandit'', ''--flake8'', ''--pylint'', ''--pyre'', ''src'']) = 0
   \<and> spawns (main (example_env 0) ''main.py''
      [''--bandit'', ''--flake8'', ''--pylint'', ''--pyre'', ''src''])
       = [[''bandit'', ''-r'', ''src''], [''flake8'', ''src''], [''pylint'', ''src''],
          [''pyre'', ''check'']]"
proof -
  let ?argv = "[''--bandit'', ''--flake8'', ''--pylint'', ''--pyre'', ''src'']"
  let ?args = "\<lparr>directory = Some ''src'', bandit = True, flake8 = True, pylint = True,
                 pyre = True\<rparr>"
  have p: "parse_args ''main.py'' ?argv = Inr ?args" by code_simp
  have d: "directory ?args = Some ''src''" by simp
  have e: "is_dir (example_env 0) ''src''" by (simp add: example_env_def)
  have f: "bandit ?args" "flake8 ?args" "pylint ?args" "pyre ?args" by simp_all
  have s: "\<forall>c \<in> set (spawns (main (example_env 0) ''main.py'' ?argv)).
             succeeds (example_env 0) c"
    by (simp add: succeeds_def example_env_def)
  show ?thesis
    using all_tools [OF p d e f s] by simp
qed

text \<open>
  C5. In an existing directory with none of the four flags set, the process exits with
  status 0 and spawns no child process.
\<close>

theorem no_tools:
  assumes "parse_args prog argv = Inr args" and "directory args = Some d"
    and "is_dir env d"
    and "\<not> bandit args" and "\<not> flake8 args" and "\<not> pylint args" and "\<not> pyre args"
  shows "exit_status (main env prog argv) = 0 \<and> spawns (main env prog argv) = []"
  using assms(4-7)
  by (simp add: main_spawns_dir [OF assms(1-3)] main_status_dir [OF assms(1-3)]
        selected_commands_def)

theorem no_tools_witness:
  "exit_status (main (example_env 0) ''main.py'' [''src'']) = 0
   \<and> spawns (main (example_env 0) ''main.py'' [''src'']) = []"
proof -
  let ?args = "\<lparr>directory = Some ''src'', bandit = False, flake8 = False, pylint = False,
                 pyre = False\<rparr>"
  have p: "parse_args ''main.py'' [''src''] = Inr ?args" by code_simp
  have d: "directory ?args = Some ''src''" by simp
  have e: "is_dir (example_env 0) ''src''" by (simp add: example_env_def)
  have f: "\<not> bandit ?args" "\<not> flake8 ?args" "\<not> pylint ?args" "\<not> pyre ?args" by simp_all
  show ?thesis
    using no_tools [OF p d e f] by simp
qed

subsection \<open>Failures and the log\<close>

lemma run_tool_nonzero:
  assumes "subprocess_run env c = Completed rc out err" and "rc \<noteq> 0"
  shows "fst (run_tool env c w) = Inl (RuntimeError (''Error running command: '' @ join '' '' c))"
    and "logged (snd (run_tool env c w)) =
           logged w @ [(INFO, ''Running command: '' @ join '' '' c),
                       (ERROR, ''Command failed with error:'' @ [CHR 0x0A] @ err)]"
  using assms by (simp_all add: run_tool_def logger_def Let_def)

lemma run_tool_raised:
  assumes "subprocess_run env c = Raises e"
  shows "fst (run_tool env c w) = Inl e"
  using assms by (simp add: run_tool_def Let_def)

lemma main_ends_at_failure:
  assumes "parse_args prog argv = Inr args" and "directory args = Some d"
    and "is_dir env d"
    and "c \<in> set (spawns (main env prog argv))" and "\<not> succeeds env c"
  shows "\<exists>w'. main env prog argv = handle (run_tool env c w')"
proof -
  let ?sel = "selected_commands d (bandit args) (flake8 args) (pylint args) (pyre args)"
  have "c \<in> set (attempted env ?sel)"
    using assms(4) by (simp only: main_spawns_dir [OF assms(1-3)])
  from run_all_ends_at_failure [OF this assms(5)]
  obtain w' where "run_all env ?sel start = run_tool env c w'" by blast
  then have "main env prog argv = handle (run_tool env c w')"
    by (simp only: main_parsed [OF assms(1,2)] analyze_code_run_all [OF assms(3)])
  then show ?thesis ..
qed

lemma main_spawns_cases:
  "spawns (main env prog argv) = []
   \<or> (\<exists>d b f p y. spawns (main env prog argv) = attempted env (selected_commands d b f p y))"
proof (cases "parse_args prog argv")
  case (Inl x)
  then show ?thesis
    by (cases x) (simp add: main_def spawns_def start_def)
next
  case (Inr args)
  show ?thesis
  proof (cases "directory args")
    case None
    with Inr show ?thesis
      by (simp add: main_def handle_spawns start_def)
  next
    case (Some d)
    show ?thesis
    proof (cases "is_dir env d")
      case True
      from main_spawns_dir [OF Inr Some True] show ?thesis by blast
    next
      case False
      with Inr Some show ?thesis
        by (simp add: main_parsed analyze_code_no_dir handle_spawns logger_def start_def)
    qed
  qed
qed

text \<open>
  C7. Every failure that \<^verbatim>\<open>main\<close> handles makes the process exit with status exactly 1
  and leaves an error record in the log: a missing directory (two records, the validator's
  and the handler's), a spawned tool that exits with a non-zero status (its captured
  standard error, then the handler's record naming the command), and any other exception
  raised while a tool is started (the handler's record with the exception's text). The
  last part is the handler itself: whatever exception \<^verbatim>\<open>analyze_code\<close> raises, the
  process logs it and exits with status 1.
\<close>

theorem handled_failures:
  assumes "parse_args prog argv = Inr args" and "directory args = Some d"
  shows "(\<not> is_dir env d \<longrightarrow>
            exit_status (main env prog argv) = 1
          \<and> logs (main env prog argv) =
              [(ERROR, ''Directory does not exist: '' @ d),
               (ERROR, ''An error occurred: Directory not found: '' @ d)])
       \<and> (is_dir env d \<and> c \<in> set (spawns (main env prog argv))
            \<and> subprocess_run env c = Completed rc out err \<and> rc \<noteq> 0 \<longrightarrow>
            exit_status (main env prog argv) = 1
          \<and> suffix [(ERROR, ''Command failed with error:'' @ [CHR 0x0A] @ err),
                    (ERROR, ''An error occurred: Error running command: '' @ join '' '' c)]
               (logs (main env prog argv)))
       \<and> (is_dir env d \<and> c' \<in> set (spawns (main env prog argv))
            \<and> subprocess_run env c' = Raises e \<longrightarrow>
            exit_status (main env prog argv) = 1
          \<and> suffix [(ERROR, ''An error occurred: '' @ str e)] (logs (main env prog argv)))
       \<and> (analyze_code env d (bandit args) (flake8 args) (pylint args) (pyre args) start
            = (Inl e', w) \<longrightarrow>
            main env prog argv = (1, logger ERROR (''An error occurred: '' @ str e') w))"
proof (intro conjI impI)
  assume "\<not> is_dir env d"
  then show "exit_status (main env prog argv) = 1"
    by (simp add: main_parsed [OF assms] analyze_code_no_dir handle_status)
  from \<open>\<not> is_dir env d\<close>
  show "logs (main env prog argv) =
      [(ERROR, ''Directory does not exist: '' @ d),
       (ERROR, ''An error occurred: Directory not found: '' @ d)]"
    by (simp add: main_parsed [OF assms] analyze_code_no_dir handle_logs_Inl logger_def
          start_def)
next
  assume a: "is_dir env d \<and> c \<in> set (spawns (main env prog argv))
      \<and> subprocess_run env c = Completed rc out err \<and> rc \<noteq> 0"
  then have nok: "\<not> succeeds env c" by (simp add: succeeds_def)
  from a main_ends_at_failure [OF assms _ _ nok]
  obtain w' where m: "main env prog argv = handle (run_tool env c w')" by blast
  from a have r: "subprocess_run env c = Completed rc out err" "rc \<noteq> 0" by simp_all
  show "exit_status (main env prog argv) = 1"
    by (simp add: m handle_status run_tool_nonzero(1) [OF r])
  show "suffix [(ERROR, ''Command failed with error:'' @ [CHR 0x0A] @ err),
                (ERROR, ''An error occurred: Error running command: '' @ join '' '' c)]
          (logs (main env prog argv))"
    by (simp add: m handle_logs_Inl [OF run_tool_nonzero(1) [OF r]] run_tool_nonzero(2) [OF r]
          suffix_def)
next
  assume a: "is_dir env d \<and> c' \<in> set (spawns (main env prog argv))
      \<and> subprocess_run env c' = Raises e"
  then have nok: "\<not> succeeds env c'" by (simp add: succeeds_def)
  from a main_ends_at_failure [OF assms _ _ nok]
  obtain w' where m: "main env prog argv = handle (run_tool env c' w')" by blast
  from a have r: "subprocess_run env c' = Raises e" by simp
  show "exit_status (main env prog argv) = 1"
    by (simp add: m handle_status run_tool_raised [OF r])
  show "suffix [(ERROR, ''An error occurred: '' @ str e)] (logs (main env prog argv))"
    by (simp add: m handle_logs_Inl [OF run_tool_raised [OF r]] suffix_def)
next
  assume "analyze_code env d (bandit args) (flake8 args) (pylint args) (pyre args) start
      = (Inl e', w)"
  then show "main env prog argv = (1, logger ERROR (''An error occurred: '' @ str e') w)"
    by (simp add: main_parsed [OF assms] handle_def)
qed

theorem handled_failures_witness:
  "main (example_env 0) ''main.py'' [''nowhere'', ''--bandit'']
     = (1, \<lparr>logged = [(ERROR, ''Directory does not exist: nowhere''),
                     (ERROR, ''An error occurred: Directory not found: nowhere'')],
            spawned = [], stdio = []\<rparr>)
   \<and> exit_status (main (example_env 3) ''main.py'' [''src'', ''--flake8'']) = 1
   \<and> suffix [(ERROR, ''Command failed with error:'' @ [CHR 0x0A] @ ''err''),
             (ERROR, ''An error occurred: Error running command: flake8 src'')]
        (logs (main (example_env 3) ''main.py'' [''src'', ''--flake8'']))
   \<and> exit_status (main missing_tools_env ''main.py'' [''src'', ''--flake8'']) = 1
   \<and> suffix [(ERROR, ''An error occurred: [Errno 2] No such file or directory'')]
        (logs (main missing_tools_env ''main.py'' [''src'', ''--flake8'']))"
proof -
  let ?a1 = "\<lparr>directory = Some ''nowhere'', bandit = True, flake8 = False, pylint = False,
               pyre = False\<rparr>"
  let ?a2 = "\<lparr>directory = Some ''src'', bandit = False, flake8 = True, pylint = False,
               pyre = False\<rparr>"
  have p1: "parse_args ''main.py'' [''nowhere'', ''--bandit''] = Inr ?a1" by code_simp
  have p2: "parse_args ''main.py'' [''src'', ''--flake8''] = Inr ?a2" by code_simp
  have d1: "directory ?a1 = Some ''nowhere''" and d2: "directory ?a2 = Some ''src''"
    by simp_all
  have e1: "\<not> is_dir (example_env 0) ''nowhere''" by (simp add: example_env_def)
  have a1: "analyze_code (example_env 0) ''nowhere'' (bandit ?a1) (flake8 ?a1) (pylint ?a1)
      (pyre ?a1) start
      = (Inl (FileNotFoundError ''Directory not found: nowhere''),
         \<lparr>logged = [(ERROR, ''Directory does not exist: nowhere'')], spawned = [],
          stdio = []\<rparr>)"
    by (simp add: analyze_code_no_dir [OF e1] logger_def start_def)
  have e2: "is_dir (example_env 3) ''src''" by (simp add: example_env_def)
  have m2: "[''flake8'', ''src'']
      \<in> set (spawns (main (example_env 3) ''main.py'' [''src'', ''--flake8'']))"
    by code_simp
  have r2: "subprocess_run (example_env 3) [''flake8'', ''src''] = Completed 3 ''out'' ''err''"
    by (simp add: example_env_def)
  have j: "join '' '' [''flake8'', ''src''] = ''flake8 src''" by simp
  have e3: "is_dir missing_tools_env ''src''" by (simp add: missing_tools_env_def)
  have m3: "[''flake8'', ''src'']
      \<in> set (spawns (main missing_tools_env ''main.py'' [''src'', ''--flake8'']))"
    by code_simp
  have r3: "subprocess_run missing_tools_env [''flake8'', ''src'']
      = Raises (FileNotFoundError ''[Errno 2] No such file or directory'')"
    by (simp add: missing_tools_env_def)
  show ?thesis
    using handled_failures [OF p1 d1, of "example_env 0" _ _ _ _ _ _
        "FileNotFoundError ''Directory not found: nowhere''"
        "\<lparr>logged = [(ERROR, ''Directory does not exist: nowhere'')], spawned = [],
          stdio = []\<rparr>"]
      handled_failures [OF p2 d2, of "example_env 3" "[''flake8'', ''src'']" 3 "''out''" "''err''"]
      handled_failures [OF p2 d2, of missing_tools_env _ _ _ _ "[''flake8'', ''src'']"
        "FileNotFoundError ''[Errno 2] No such file or directory''"]
      a1 e2 m2 r2 j e3 m3 r3
    by (simp add: logger_def)
qed

text \<open>
  C9. No invocation is retried: in every run, whatever the command line and the
  environment, each command line is handed to \<^verbatim>\<open>subprocess.run\<close> at most once, also
  when its invocation fails.
\<close>

theorem no_retry: "count_list (spawns (main env prog argv)) c \<le> 1"
proof -
  have "distinct (spawns (main env prog argv))"
    using main_spawns_cases [of env prog argv]
    by (auto simp: attempted_distinct selected_commands_distinct)
  then show ?thesis by (rule distinct_count_list)
qed

section \<open>The parser\<close>

subsection \<open>Option tuples come from the table\<close>

lemma get_option_tuples_known:
  "get_option_tuples s = Inr ts \<Longrightarrow> (a, os, sep, e) \<in> set ts \<Longrightarrow>
   \<exists>a'. a = Some a' \<and> (os, a') \<in> set setup_argparse"
  by (auto simp: get_option_tuples_def split: list.splits if_splits prod.splits option.splits)

lemma hd_in_set_single: "length ts = Suc 0 \<Longrightarrow> hd ts \<in> set ts"
  by (cases ts) simp_all

lemma parse_optional_known:
  assumes "parse_optional s = Inr (Some (Some a, os, sep, e))"
  shows "(os, a) \<in> set setup_argparse"
  using assms
  by (auto simp: parse_optional_def
        split: if_splits option.splits prod.splits sum.splits
        dest!: map_of_SomeD hd_in_set_single
        dest: get_option_tuples_known)

subsection \<open>What the actions and \<^verbatim>\<open>consume_optional\<close> do\<close>

lemma take_action_exits:
  "take_action prog a ns = Inl x \<Longrightarrow>
   x = SystemExit 0 Help_text \<or> x = SystemExit 0 (Version_text (prog @ '' '' @ VERSION))"
  by (cases a) simp_all

lemma take_actions_exits:
  "take_actions prog as ns = Inl x \<Longrightarrow>
   x = SystemExit 0 Help_text \<or> x = SystemExit 0 (Version_text (prog @ '' '' @ VERSION))"
  by (induction as arbitrary: ns) (auto split: sum.splits dest: take_action_exits)

lemma take_action_directory: "take_action prog a ns = Inr ns' \<Longrightarrow> directory ns' = directory ns"
  by (cases a) auto

lemma take_actions_directory:
  "take_actions prog as ns = Inr ns' \<Longrightarrow> directory ns' = directory ns"
  by (induction as arbitrary: ns) (auto split: sum.splits dest: take_action_directory)

lemma take_action_store:
  "a \<noteq> Help \<Longrightarrow> a \<noteq> Version \<Longrightarrow> \<exists>ns'. take_action prog a ns = Inr ns'"
  by (cases a) simp_all

lemma consume_optional_unknown: "consume_optional s (None, os, sep, e) ts = Inr ([], [s])"
  by simp

lemma consume_optional_double_dash:
  "\<not> single_dash os \<Longrightarrow>
   consume_optional s (Some a, os, sep, e) [] =
     (case e of None \<Rightarrow> Inr ([a], []) | Some x \<Rightarrow> Inl (Ignored_explicit_argument a x))"
  by (simp split: option.splits list.splits)

lemma table_double_dash:
  "(os, a) \<in> set setup_argparse \<Longrightarrow> a \<noteq> Help \<Longrightarrow> \<not> single_dash os"
  by (auto simp: setup_argparse_def single_dash_def)

text \<open>Store actions never end the process; without the help action only the version
  action can.\<close>

lemma take_actions_quiet:
  "Help \<notin> set as \<Longrightarrow> Version \<notin> set as \<Longrightarrow> \<exists>ns'. take_actions prog as ns = Inr ns'"
proof (induction as arbitrary: ns)
  case Nil
  then show ?case by simp
next
  case (Cons a as)
  then have "a \<noteq> Help" and "a \<noteq> Version" by auto
  from take_action_store [OF this, of prog ns]
  obtain ns1 where "take_action prog a ns = Inr ns1" ..
  with Cons.IH [of ns1] Cons.prems show ?case by simp
qed

lemma take_actions_no_help:
  "Help \<notin> set as \<Longrightarrow>
   (\<exists>ns'. take_actions prog as ns = Inr ns')
   \<or> take_actions prog as ns = Inl (SystemExit 0 (Version_text (prog @ '' '' @ VERSION)))"
proof (induction as arbitrary: ns)
  case Nil
  then show ?case by simp
next
  case (Cons a as)
  then have h: "a \<noteq> Help" and r: "Help \<notin> set as" by auto
  show ?case
  proof (cases "a = Version")
    case True
    then show ?thesis by simp
  next
    case False
    from take_action_store [OF h False, of prog ns]
    obtain ns1 where "take_action prog a ns = Inr ns1" ..
    with Cons.IH [OF r, of ns1] show ?thesis by simp
  qed
qed

lemma consume_quiet:
  assumes "parse_optional s = Inr (Some t)"
    and "\<not> takes s Help" and "\<not> takes s Version"
    and "consume_optional s t [] = Inr (actions, added)"
  shows "\<exists>ns'. take_actions prog actions ns = Inr ns'"
proof -
  from assms have "Help \<notin> set actions" and "Version \<notin> set actions"
    by (simp_all add: takes_def consumed_def)
  then show ?thesis by (rule take_actions_quiet)
qed

subsection \<open>The pattern\<close>

lemma pattern_Opt:
  "arg_strings_pattern argv = Inr items \<Longrightarrow> (s, Opt t) \<in> set items \<Longrightarrow>
   s \<in> set (options_region argv) \<and> parse_optional s = Inr (Some t)"
proof (induction argv arbitrary: items)
  case Nil
  then show ?case by simp
next
  case (Cons a argv)
  show ?case
  proof (cases "a = ''--''")
    case True
    with Cons.prems show ?thesis by auto
  next
    case False
    with Cons.prems obtain c its where
      c: "parse_optional a = Inr c" and its: "arg_strings_pattern argv = Inr its"
      and items: "items = (a, (case c of None \<Rightarrow> Arg | Some t \<Rightarrow> Opt t)) # its"
      by (auto split: sum.splits)
    show ?thesis
    proof (cases "(s, Opt t) \<in> set its")
      case True
      from Cons.IH [OF its True] False show ?thesis
        by (simp add: options_region_def)
    next
      case notin: False
      with Cons.prems(2) items have "s = a" and "(case c of None \<Rightarrow> Arg | Some t \<Rightarrow> Opt t) = Opt t"
        by auto
      with c False show ?thesis
        by (auto simp: options_region_def split: option.splits)
    qed
  qed
qed

lemma pattern_Opt_mem:
  "arg_strings_pattern argv = Inr items \<Longrightarrow> s \<in> set (options_region argv) \<Longrightarrow>
   parse_optional s = Inr (Some t) \<Longrightarrow> (s, Opt t) \<in> set items"
proof (induction argv arbitrary: items)
  case Nil
  then show ?case by (simp add: options_region_def)
next
  case (Cons a argv)
  show ?case
  proof (cases "a = ''--''")
    case True
    with Cons.prems show ?thesis by (simp add: options_region_def)
  next
    case False
    with Cons.prems obtain c its where
      c: "parse_optional a = Inr c" and its: "arg_strings_pattern argv = Inr its"
      and items: "items = (a, (case c of None \<Rightarrow> Arg | Some t \<Rightarrow> Opt t)) # its"
      by (auto split: sum.splits)
    from Cons.prems(2) False have "s = a \<or> s \<in> set (options_region argv)"
      by (auto simp: options_region_def)
    then show ?thesis
    proof
      assume "s = a"
      with c Cons.prems(3) items show ?thesis by auto
    next
      assume "s \<in> set (options_region argv)"
      from Cons.IH [OF its this Cons.prems(3)] items show ?thesis by simp
    qed
  qed
qed

lemma options_region_Cons:
  "a \<noteq> ''--'' \<Longrightarrow> options_region (a # argv) = a # options_region argv"
  by (simp add: options_region_def)

lemma arguments_Cons:
  "a \<noteq> ''--'' \<Longrightarrow>
   arguments (a # argv) = (if parse_optional a = Inr None then [a] else []) @ arguments argv"
  by (simp add: arguments_def options_region_def)

lemma arguments_separator: "arguments (''--'' # argv) = argv"
  by (simp add: arguments_def options_region_def)

text \<open>Without arguments the pattern is a run of optionals, and then perhaps the
  separator.\<close>

lemma pattern_no_arguments:
  "arg_strings_pattern argv = Inr items \<Longrightarrow> arguments argv = [] \<Longrightarrow>
   \<exists>opts tail. items = opts @ tail \<and> (\<forall>it \<in> set opts. is_option it)
     \<and> (tail = [] \<or> tail = [(''--'', Sep)])"
proof (induction argv arbitrary: items)
  case Nil
  then show ?case by simp
next
  case (Cons a argv)
  show ?case
  proof (cases "a = ''--''")
    case True
    from Cons.prems(2) have "argv = []"
      by (simp only: True arguments_separator)
    with Cons.prems(1) True have i: "items = [] @ [(''--'', Sep)]"
      by simp
    show ?thesis
    proof (intro exI conjI)
      show "items = [] @ [(''--'', Sep)]" by (rule i)
      show "\<forall>it \<in> set []. is_option it" by simp
      show "[(''--'', Sep)] = [] \<or> [(''--'', Sep)] = [(''--'', Sep)]" by simp
    qed
  next
    case False
    from Cons.prems(2) have
      "(if parse_optional a = Inr None then [a] else []) @ arguments argv = []"
      by (simp only: arguments_Cons [OF False])
    then have na: "parse_optional a \<noteq> Inr None" and ar: "arguments argv = []"
      by (simp_all split: if_splits)
    from Cons.prems(1) False have
      "(case parse_optional a of
          Inl e \<Rightarrow> Inl e
        | Inr option_tuple \<Rightarrow>
            (case arg_strings_pattern argv of
               Inl e \<Rightarrow> Inl e
             | Inr items \<Rightarrow>
                 Inr ((a, (case option_tuple of None \<Rightarrow> Arg | Some t \<Rightarrow> Opt t)) # items)))
       = Inr items"
      by simp
    with na obtain t its where
      its: "arg_strings_pattern argv = Inr its" and items: "items = (a, Opt t) # its"
      by (auto split: sum.splits option.splits)
    from Cons.IH [OF its ar] obtain opts tail where
      d: "its = opts @ tail" and o: "\<forall>it \<in> set opts. is_option it"
      and t: "tail = [] \<or> tail = [(''--'', Sep)]"
      by (elim exE conjE)
    show ?thesis
    proof (intro exI conjI)
      from items d show "items = ((a, Opt t) # opts) @ tail" by simp
      from o show "\<forall>it \<in> set ((a, Opt t) # opts). is_option it" by (simp add: is_option_def)
      from t show "tail = [] \<or> tail = [(''--'', Sep)]" .
    qed
  qed
qed

text \<open>Unless a string is ambiguous, the pattern is built.\<close>

lemma pattern_accepted:
  "\<forall>s \<in> set (options_region argv). \<not> ambiguous s \<Longrightarrow>
   \<exists>items. arg_strings_pattern argv = Inr items"
proof (induction argv)
  case Nil
  then show ?case by simp
next
  case (Cons a argv)
  show ?case
  proof (cases "a = ''--''")
    case True
    then show ?thesis by simp
  next
    case False
    with Cons.prems have "\<not> ambiguous a"
      and "\<forall>s \<in> set (options_region argv). \<not> ambiguous s"
      by (simp_all add: options_region_Cons)
    with Cons.IH False show ?thesis
      by (auto simp: ambiguous_def split: sum.splits)
  qed
qed

subsection \<open>The main loop\<close>

text \<open>The three cases of one round of the loop.\<close>

lemma consume_loop_done:
  "\<not> list_ex is_option items \<Longrightarrow> consume_loop prog items ns extras = Inr (ns, extras, items)"
  by (cases items) auto

lemma consume_loop_option:
  "consume_loop prog ((s, Opt t) # items) ns extras =
     (case consume_optional s t [] of
        Inl e \<Rightarrow> Inl (parser_error e)
      | Inr (actions, added) \<Rightarrow>
          (case take_actions prog actions ns of
             Inl x \<Rightarrow> Inl x
           | Inr ns' \<Rightarrow> consume_loop prog items ns' (extras @ added)))"
  by (simp add: is_option_def)

lemma consume_loop_argument:
  "list_ex is_option items \<Longrightarrow> \<forall>t. k \<noteq> Opt t \<Longrightarrow>
   consume_loop prog ((s, k) # items) ns extras =
     (if directory ns = None
      then consume_loop prog items (ns\<lparr>directory := Some s\<rparr>) extras
      else consume_loop prog items ns (extras @ [s]))"
  by (cases k) simp_all

lemma round_cases:
  obtains (finished) "\<not> list_ex is_option (it # items)"
  | (optional) s t where "it = (s, Opt t)"
  | (argument) s k where "it = (s, k)" "\<forall>t. k \<noteq> Opt t" "list_ex is_option items"
proof (cases "list_ex is_option (it # items)")
  case False
  then show ?thesis by (rule finished)
next
  case True
  obtain s k where it: "it = (s, k)" by (cases it)
  show ?thesis
  proof (cases "\<exists>t. k = Opt t")
    case True
    with it optional show ?thesis by blast
  next
    case False
    with True it have "list_ex is_option items" by (cases k) (auto simp: is_option_def)
    with False it argument show ?thesis by blast
  qed
qed

text \<open>The process ends in the loop only through \<^verbatim>\<open>error\<close> or through the help or
  version action.\<close>

lemma consume_loop_exits:
  "consume_loop prog items ns extras = Inl x \<Longrightarrow>
   (\<exists>e. x = parser_error e) \<or> x = SystemExit 0 Help_text
   \<or> x = SystemExit 0 (Version_text (prog @ '' '' @ VERSION))"
proof (induction items arbitrary: ns extras)
  case Nil
  then show ?case by simp
next
  case (Cons it items)
  show ?case
  proof (cases it items rule: round_cases)
    case finished
    with Cons.prems show ?thesis by (simp add: consume_loop_done del: consume_loop.simps)
  next
    case (optional s t)
    with Cons.prems show ?thesis
      by (auto simp: consume_loop_option simp del: consume_loop.simps
            split: sum.splits prod.splits dest: take_actions_exits Cons.IH)
  next
    case (argument s k)
    with Cons.prems show ?thesis
      by (auto simp: consume_loop_argument simp del: consume_loop.simps
            split: if_splits dest: Cons.IH)
  qed
qed

text \<open>With no string that takes the help or the version action, the loop ends the process only
  through \<^verbatim>\<open>error\<close>.\<close>

lemma consume_loop_quiet:
  assumes "\<forall>it \<in> set items. \<forall>t. snd it = Opt t \<longrightarrow>
             parse_optional (fst it) = Inr (Some t)
             \<and> \<not> takes (fst it) Help \<and> \<not> takes (fst it) Version"
    and "consume_loop prog items ns extras = Inl x"
  shows "\<exists>e. x = parser_error e"
  using assms
proof (induction items arbitrary: ns extras)
  case Nil
  then show ?case by simp
next
  case (Cons it items)
  from Cons.prems(1) have rest:
    "\<forall>it \<in> set items. \<forall>t. snd it = Opt t \<longrightarrow>
       parse_optional (fst it) = Inr (Some t)
       \<and> \<not> takes (fst it) Help \<and> \<not> takes (fst it) Version"
    by simp
  show ?case
  proof (cases it items rule: round_cases)
    case finished
    with Cons.prems(2) show ?thesis by (simp add: consume_loop_done del: consume_loop.simps)
  next
    case (optional s t)
    with Cons.prems(1)
    have q: "parse_optional s = Inr (Some t)" "\<not> takes s Help" "\<not> takes s Version"
      by (simp_all del: split_paired_All)
    show ?thesis
    proof (cases "consume_optional s t []")
      case (Inl e)
      with Cons.prems(2) optional show ?thesis
        by (auto simp: consume_loop_option simp del: consume_loop.simps)
    next
      case (Inr r)
      obtain actions added where r: "r = (actions, added)" by (cases r)
      from consume_quiet [OF q Inr [unfolded r], of prog ns]
      obtain ns' where "take_actions prog actions ns = Inr ns'" ..
      with Cons.prems(2) optional Inr r
      have "consume_loop prog items ns' (extras @ added) = Inl x"
        by (simp add: consume_loop_option del: consume_loop.simps)
      from Cons.IH [OF rest this] show ?thesis .
    qed
  next
    case (argument s k)
    with Cons.prems(2) show ?thesis
      by (auto simp: consume_loop_argument simp del: consume_loop.simps
            split: if_splits dest: Cons.IH [OF rest])
  qed
qed

text \<open>An unknown flag ends up in \<^verbatim>\<open>extras\<close>, and \<^verbatim>\<open>extras\<close> never shrinks.\<close>

lemma consume_loop_extras:
  assumes "consume_loop prog items ns extras = Inr (ns', extras', rest)"
    and "extras \<noteq> [] \<or> (\<exists>it \<in> set items. \<exists>os sep e. snd it = Opt (None, os, sep, e))"
  shows "extras' \<noteq> []"
  using assms
proof (induction items arbitrary: ns extras)
  case Nil
  then show ?case by simp
next
  case (Cons it items)
  show ?case
  proof (cases it items rule: round_cases)
    case finished
    then have "\<forall>i \<in> set (it # items). \<forall>t. snd i \<noteq> Opt t"
      by (auto simp: list_ex_iff is_option_def)
    with Cons.prems(2) have "extras \<noteq> []" by fastforce
    with Cons.prems(1) finished show ?thesis
      by (simp add: consume_loop_done del: consume_loop.simps)
  next
    case (optional s t)
    from Cons.prems(1) optional obtain actions added ns1 where
      c: "consume_optional s t [] = Inr (actions, added)"
      and l: "consume_loop prog items ns1 (extras @ added) = Inr (ns', extras', rest)"
      by (auto simp: consume_loop_option simp del: consume_loop.simps
            split: sum.splits prod.splits)
    have "extras @ added \<noteq> []
        \<or> (\<exists>it \<in> set items. \<exists>os sep e. snd it = Opt (None, os, sep, e))"
    proof (cases "\<exists>os sep e. t = (None, os, sep, e)")
      case True
      with c show ?thesis by auto
    next
      case False
      with Cons.prems(2) optional show ?thesis by auto
    qed
    from Cons.IH [OF l this] show ?thesis .
  next
    case (argument s k)
    from argument(1,2) Cons.prems(2)
    have u: "extras \<noteq> [] \<or> (\<exists>it \<in> set items. \<exists>os sep e. snd it = Opt (None, os, sep, e))"
      by auto
    show ?thesis
    proof (cases "directory ns = None")
      case True
      with Cons.prems(1) argument
      have "consume_loop prog items (ns\<lparr>directory := Some s\<rparr>) extras = Inr (ns', extras', rest)"
        by (simp add: consume_loop_argument del: consume_loop.simps)
      from Cons.IH [OF this u] show ?thesis .
    next
      case False
      with Cons.prems(1) argument
      have "consume_loop prog items ns (extras @ [s]) = Inr (ns', extras', rest)"
        by (simp add: consume_loop_argument del: consume_loop.simps)
      from Cons.IH [OF this] show ?thesis by simp
    qed
  qed
qed

text \<open>Options alone never set the directory, and what follows the last of them is left
  for \<^verbatim>\<open>consume_positionals\<close>.\<close>

lemma consume_loop_options:
  assumes "consume_loop prog (opts @ tail) ns extras = Inr (ns', extras', rest)"
    and "\<forall>it \<in> set opts. is_option it" and "\<not> list_ex is_option tail"
    and "directory ns = None"
  shows "directory ns' = None \<and> rest = tail"
  using assms
proof (induction opts arbitrary: ns extras)
  case Nil
  then show ?case by (simp add: consume_loop_done del: consume_loop.simps)
next
  case (Cons it opts)
  obtain s k where it: "it = (s, k)" by (cases it)
  from Cons.prems(2) it obtain t where k: "k = Opt t"
    by (cases k) (auto simp: is_option_def)
  from Cons.prems(1) it k obtain actions added ns1 where
    a: "take_actions prog actions ns = Inr ns1"
    and l: "consume_loop prog (opts @ tail) ns1 (extras @ added) = Inr (ns', extras', rest)"
    by (auto simp: consume_loop_option simp del: consume_loop.simps
          split: sum.splits prod.splits)
  from take_actions_directory [OF a] Cons.prems(4) have "directory ns1 = None" by simp
  from Cons.IH [OF l _ Cons.prems(3) this] Cons.prems(2) show ?case by simp
qed

subsection \<open>\<^verbatim>\<open>parse_args\<close>\<close>

lemma parse_args_Inl:
  "parse_args prog argv = Inl x \<Longrightarrow>
   (\<exists>e. x = parser_error e)
   \<or> (\<exists>items. arg_strings_pattern argv = Inr items
        \<and> consume_loop prog items default_namespace [] = Inl x)"
  by (auto simp: parse_args_def parse_known_args_def
        split: sum.splits prod.splits if_splits)

lemma parse_args_Inr:
  "parse_args prog argv = Inr ns \<Longrightarrow>
   \<exists>items ns0 rest rest'. arg_strings_pattern argv = Inr items
     \<and> consume_loop prog items default_namespace [] = Inr (ns0, [], rest)
     \<and> consume_positionals ns0 rest = (ns, rest') \<and> directory ns \<noteq> None"
  by (auto simp: parse_args_def parse_known_args_def
        split: sum.splits prod.splits if_splits)

text \<open>A namespace that the parser returns has its directory.\<close>

lemma parse_args_directory: "parse_args prog argv = Inr ns \<Longrightarrow> \<exists>d. directory ns = Some d"
  by (auto dest: parse_args_Inr)

text \<open>The parser ends the process in three ways only.\<close>

lemma parse_args_exits:
  "parse_args prog argv = Inl x \<Longrightarrow>
   (\<exists>e. x = parser_error e) \<or> x = SystemExit 0 Help_text
   \<or> x = SystemExit 0 (Version_text (prog @ '' '' @ VERSION))"
  by (auto dest!: parse_args_Inl dest: consume_loop_exits)

lemma main_parser_exit:
  "parse_args prog argv = Inl (SystemExit status out) \<Longrightarrow>
   main env prog argv = (status, start\<lparr>stdio := [out]\<rparr>)"
  by (simp add: main_def)

subsection \<open>Tool flags and plain strings\<close>

lemma parse_optional_plain: "plain s \<Longrightarrow> parse_optional s = Inr None"
  by (cases s) (simp_all add: plain_def parse_optional_def)

lemma plain_not_separator: "plain s \<Longrightarrow> s \<noteq> ''--''"
  by (auto simp: plain_def)

lemma parse_optional_flags:
  "parse_optional ''--bandit'' = Inr (Some (Some Store_bandit, ''--bandit'', None, None))"
  "parse_optional ''--flake8'' = Inr (Some (Some Store_flake8, ''--flake8'', None, None))"
  "parse_optional ''--pylint'' = Inr (Some (Some Store_pylint, ''--pylint'', None, None))"
  "parse_optional ''--pyre'' = Inr (Some (Some Store_pyre, ''--pyre'', None, None))"
  by (simp_all add: parse_optional_def setup_argparse_def)

lemma parse_optional_version:
  "parse_optional ''--version'' = Inr (Some (Some Version, ''--version'', None, None))"
  by (simp add: parse_optional_def setup_argparse_def)

text \<open>A tool flag or a plain string is not ambiguous, does not take the help action and is
  not refused.\<close>

lemma simple_strings_pass:
  assumes "tool_flag s \<or> plain s"
  shows "\<not> ambiguous s \<and> \<not> takes s Help \<and> \<not> refused s"
  using assms
  by (auto simp: tool_flag_def ambiguous_def takes_def refused_def consumed_def
        parse_optional_flags parse_optional_plain)

text \<open>The namespace of a command line made of a directory and one tool flag, in both
  orders.\<close>

lemma parse_args_directory_flag:
  assumes "plain d"
  shows "parse_args prog [d, ''--bandit'']
           = Inr \<lparr>directory = Some d, bandit = True, flake8 = False, pylint = False,
                  pyre = False\<rparr>"
    and "parse_args prog [d, ''--flake8'']
           = Inr \<lparr>directory = Some d, bandit = False, flake8 = True, pylint = False,
                  pyre = False\<rparr>"
    and "parse_args prog [d, ''--pylint'']
           = Inr \<lparr>directory = Some d, bandit = False, flake8 = False, pylint = True,
                  pyre = False\<rparr>"
    and "parse_args prog [d, ''--pyre'']
           = Inr \<lparr>directory = Some d, bandit = False, flake8 = False, pylint = False,
                  pyre = True\<rparr>"
  using assms
  by (simp_all add: parse_args_def parse_known_args_def parse_optional_plain
        parse_optional_flags plain_not_separator is_option_def consume_positionals_def
        default_namespace_def)

lemma parse_args_flag_directory:
  assumes "plain d"
  shows "parse_args prog [''--bandit'', d]
           = Inr \<lparr>directory = Some d, bandit = True, flake8 = False, pylint = False,
                  pyre = False\<rparr>"
    and "parse_args prog [''--flake8'', d]
           = Inr \<lparr>directory = Some d, bandit = False, flake8 = True, pylint = False,
                  pyre = False\<rparr>"
    and "parse_args prog [''--pylint'', d]
           = Inr \<lparr>directory = Some d, bandit = False, flake8 = False, pylint = True,
                  pyre = False\<rparr>"
    and "parse_args prog [''--pyre'', d]
           = Inr \<lparr>directory = Some d, bandit = False, flake8 = False, pylint = False,
                  pyre = True\<rparr>"
  using assms
  by (simp_all add: parse_args_def parse_known_args_def parse_optional_plain
        parse_optional_flags plain_not_separator is_option_def consume_positionals_def
        default_namespace_def)

text \<open>What is spawned for a namespace with one flag, in an existing directory.\<close>

lemma spawns_one_flag:
  assumes "parse_args prog argv = Inr args" and "directory args = Some d"
    and "is_dir env d"
  shows "bandit args \<Longrightarrow> \<not> flake8 args \<Longrightarrow> \<not> pylint args \<Longrightarrow> \<not> pyre args \<Longrightarrow>
           spawns (main env prog argv) = [[''bandit'', ''-r'', d]]"
    and "\<not> bandit args \<Longrightarrow> flake8 args \<Longrightarrow> \<not> pylint args \<Longrightarrow> \<not> pyre args \<Longrightarrow>
           spawns (main env prog argv) = [[''flake8'', d]]"
    and "\<not> bandit args \<Longrightarrow> \<not> flake8 args \<Longrightarrow> pylint args \<Longrightarrow> \<not> pyre args \<Longrightarrow>
           spawns (main env prog argv) = [[''pylint'', d]]"
    and "\<not> bandit args \<Longrightarrow> \<not> flake8 args \<Longrightarrow> \<not> pylint args \<Longrightarrow> pyre args \<Longrightarrow>
           spawns (main env prog argv) = [[''pyre'', ''check'']]"
  by (simp_all add: main_spawns_dir [OF assms] selected_commands_def)

section \<open>Claims about the command line\<close>

text \<open>
  C3. In an existing directory \<open>d\<close> with exactly one flag set, exactly one child process
  is spawned, with the command line of that tool: \<^verbatim>\<open>bandit -r d\<close>, \<^verbatim>\<open>flake8 d\<close>,
  \<^verbatim>\<open>pylint d\<close>, and for pyre the fixed \<^verbatim>\<open>pyre check\<close>, the same for every \<open>d\<close>.
  This holds from the command line: for the directory followed by the flag and for the flag
  followed by the directory, with each of the four flags; and it holds for every other
  command line that the parser turns into a namespace with that directory and one flag.
\<close>

theorem single_tool:
  assumes "is_dir env d"
  shows "(plain d \<longrightarrow>
            spawns (main env prog [d, ''--bandit'']) = [[''bandit'', ''-r'', d]]
          \<and> spawns (main env prog [''--bandit'', d]) = [[''bandit'', ''-r'', d]]
          \<and> spawns (main env prog [d, ''--flake8'']) = [[''flake8'', d]]
          \<and> spawns (main env prog [''--flake8'', d]) = [[''flake8'', d]]
          \<and> spawns (main env prog [d, ''--pylint'']) = [[''pylint'', d]]
          \<and> spawns (main env prog [''--pylint'', d]) = [[''pylint'', d]]
          \<and> spawns (main env prog [d, ''--pyre'']) = [[''pyre'', ''check'']]
          \<and> spawns (main env prog [''--pyre'', d]) = [[''pyre'', ''check'']])
       \<and> (parse_args prog argv = Inr args \<and> directory args = Some d \<longrightarrow>
            (bandit args \<and> \<not> flake8 args \<and> \<not> pylint args \<and> \<not> pyre args \<longrightarrow>
               spawns (main env prog argv) = [[''bandit'', ''-r'', d]])
          \<and> (\<not> bandit args \<and> flake8 args \<and> \<not> pylint args \<and> \<not> pyre args \<longrightarrow>
               spawns (main env prog argv) = [[''flake8'', d]])
          \<and> (\<not> bandit args \<and> \<not> flake8 args \<and> pylint args \<and> \<not> pyre args \<longrightarrow>
               spawns (main env prog argv) = [[''pylint'', d]])
          \<and> (\<not> bandit args \<and> \<not> flake8 args \<and> \<not> pylint args \<and> pyre args \<longrightarrow>
               spawns (main env prog argv) = [[''pyre'', ''check'']]))"
proof (intro conjI impI)
  assume p: "plain d"
  note a = parse_args_directory_flag [OF p, of prog]
  note b = parse_args_flag_directory [OF p, of prog]
  show "spawns (main env prog [d, ''--bandit'']) = [[''bandit'', ''-r'', d]]"
    by (rule spawns_one_flag(1) [OF a(1) _ assms]) simp_all
  show "spawns (main env prog [''--bandit'', d]) = [[''bandit'', ''-r'', d]]"
    by (rule spawns_one_flag(1) [OF b(1) _ assms]) simp_all
  show "spawns (main env prog [d, ''--flake8'']) = [[''flake8'', d]]"
    by (rule spawns_one_flag(2) [OF a(2) _ assms]) simp_all
  show "spawns (main env prog [''--flake8'', d]) = [[''flake8'', d]]"
    by (rule spawns_one_flag(2) [OF b(2) _ assms]) simp_all
  show "spawns (main env prog [d, ''--pylint'']) = [[''pylint'', d]]"
    by (rule spawns_one_flag(3) [OF a(3) _ assms]) simp_all
  show "spawns (main env prog [''--pylint'', d]) = [[''pylint'', d]]"
    by (rule spawns_one_flag(3) [OF b(3) _ assms]) simp_all
  show "spawns (main env prog [d, ''--pyre'']) = [[''pyre'', ''check'']]"
    by (rule spawns_one_flag(4) [OF a(4) _ assms]) simp_all
  show "spawns (main env prog [''--pyre'', d]) = [[''pyre'', ''check'']]"
    by (rule spawns_one_flag(4) [OF b(4) _ assms]) simp_all
next
  assume "parse_args prog argv = Inr args \<and> directory args = Some d"
    and "bandit args \<and> \<not> flake8 args \<and> \<not> pylint args \<and> \<not> pyre args"
  then show "spawns (main env prog argv) = [[''bandit'', ''-r'', d]]"
    using assms by (simp add: spawns_one_flag(1))
next
  assume "parse_args prog argv = Inr args \<and> directory args = Some d"
    and "\<not> bandit args \<and> flake8 args \<and> \<not> pylint args \<and> \<not> pyre args"
  then show "spawns (main env prog argv) = [[''flake8'', d]]"
    using assms by (simp add: spawns_one_flag(2))
next
  assume "parse_args prog argv = Inr args \<and> directory args = Some d"
    and "\<not> bandit args \<and> \<not> flake8 args \<and> pylint args \<and> \<not> pyre args"
  then show "spawns (main env prog argv) = [[''pylint'', d]]"
    using assms by (simp add: spawns_one_flag(3))
next
  assume "parse_args prog argv = Inr args \<and> directory args = Some d"
    and "\<not> bandit args \<and> \<not> flake8 args \<and> \<not> pylint args \<and> pyre args"
  then show "spawns (main env prog argv) = [[''pyre'', ''check'']]"
    using assms by (simp add: spawns_one_flag(4))
qed

theorem single_tool_witness:
  "spawns (main (example_env 0) ''main.py'' [''src'', ''--bandit''])
     = [[''bandit'', ''-r'', ''src'']]
   \<and> spawns (main (example_env 0) ''main.py'' [''--flake8'', ''src''])
     = [[''flake8'', ''src'']]
   \<and> spawns (main (example_env 0) ''main.py'' [''src'', ''--pylint''])
     = [[''pylint'', ''src'']]
   \<and> spawns (main (example_env 0) ''main.py'' [''--pyre'', ''src''])
     = [[''pyre'', ''check'']]
   \<and> spawns (main (example_env 0) ''main.py'' [''--band'', ''src'', ''--bandit''])
     = [[''bandit'', ''-r'', ''src'']]
   \<and> spawns (main (example_env 0) ''main.py'' [''--flake8'', ''--'', ''src''])
     = [[''flake8'', ''src'']]
   \<and> spawns (main (example_env 0) ''main.py'' [''--pyl'', ''src''])
     = [[''pylint'', ''src'']]
   \<and> spawns (main (example_env 0) ''main.py'' [''src'', ''--pyre'', ''--pyre''])
     = [[''pyre'', ''check'']]"
proof -
  let ?a1 = "\<lparr>directory = Some ''src'', bandit = True, flake8 = False, pylint = False,
               pyre = False\<rparr>"
  let ?a2 = "\<lparr>directory = Some ''src'', bandit = False, flake8 = True, pylint = False,
               pyre = False\<rparr>"
  let ?a3 = "\<lparr>directory = Some ''src'', bandit = False, flake8 = False, pylint = True,
               pyre = False\<rparr>"
  let ?a4 = "\<lparr>directory = Some ''src'', bandit = False, flake8 = False, pylint = False,
               pyre = True\<rparr>"
  have e: "is_dir (example_env 0) ''src''" by (simp add: example_env_def)
  have p: "plain ''src''" by (simp add: plain_def)
  have p1: "parse_args ''main.py'' [''--band'', ''src'', ''--bandit''] = Inr ?a1" by code_simp
  have p2: "parse_args ''main.py'' [''--flake8'', ''--'', ''src''] = Inr ?a2" by code_simp
  have p3: "parse_args ''main.py'' [''--pyl'', ''src''] = Inr ?a3" by code_simp
  have p4: "parse_args ''main.py'' [''src'', ''--pyre'', ''--pyre''] = Inr ?a4" by code_simp
  show ?thesis
    using single_tool [OF e, of "''main.py''" "[''--band'', ''src'', ''--bandit'']" ?a1]
      single_tool [OF e, of "''main.py''" "[''--flake8'', ''--'', ''src'']" ?a2]
      single_tool [OF e, of "''main.py''" "[''--pyl'', ''src'']" ?a3]
      single_tool [OF e, of "''main.py''" "[''src'', ''--pyre'', ''--pyre'']" ?a4]
      p p1 p2 p3 p4
    by simp
qed

subsection \<open>Reaching \<^verbatim>\<open>--version\<close>\<close>

text \<open>The loop takes the version action when the strings before \<^verbatim>\<open>--version\<close> neither
  take the help action nor are refused.\<close>

lemma consume_loop_reaches_version:
  assumes "\<forall>it \<in> set pre. \<forall>t. snd it = Opt t \<longrightarrow>
             parse_optional (fst it) = Inr (Some t)
             \<and> \<not> takes (fst it) Help \<and> \<not> refused (fst it)"
  shows "consume_loop prog
           (pre @ (''--version'', Opt (Some Version, ''--version'', None, None)) # post)
           ns extras
         = Inl (SystemExit 0 (Version_text (prog @ '' '' @ VERSION)))"
  using assms
proof (induction pre arbitrary: ns extras)
  case Nil
  show ?case by (simp add: consume_loop_option del: consume_loop.simps)
next
  case (Cons it pre)
  let ?rest = "pre @ (''--version'', Opt (Some Version, ''--version'', None, None)) # post"
  from Cons.prems have rest:
    "\<forall>it \<in> set pre. \<forall>t. snd it = Opt t \<longrightarrow>
       parse_optional (fst it) = Inr (Some t)
       \<and> \<not> takes (fst it) Help \<and> \<not> refused (fst it)"
    by simp
  have ahead: "list_ex is_option ?rest" by (simp add: is_option_def)
  obtain s k where it: "it = (s, k)" by (cases it)
  show ?case
  proof (cases "\<exists>t. k = Opt t")
    case True
    then obtain t where k: "k = Opt t" ..
    with Cons.prems it
    have q: "parse_optional s = Inr (Some t)" "\<not> takes s Help" "\<not> refused s"
      by (simp_all del: split_paired_All)
    then obtain actions added where
      c: "consume_optional s t [] = Inr (actions, added)" and h: "Help \<notin> set actions"
      by (cases "consume_optional s t []") (auto simp: takes_def refused_def consumed_def)
    from take_actions_no_help [OF h, of prog ns] show ?thesis
    proof
      assume "\<exists>ns'. take_actions prog actions ns = Inr ns'"
      then obtain ns' where "take_actions prog actions ns = Inr ns'" ..
      with it k c Cons.IH [OF rest, of ns' "extras @ added"] show ?thesis
        by (simp add: consume_loop_option del: consume_loop.simps)
    next
      assume "take_actions prog actions ns
          = Inl (SystemExit 0 (Version_text (prog @ '' '' @ VERSION)))"
      with it k c show ?thesis
        by (simp add: consume_loop_option del: consume_loop.simps)
    qed
  next
    case False
    then have "\<forall>t. k \<noteq> Opt t" by simp
    from consume_loop_argument [OF ahead this, of prog s ns extras] it
      Cons.IH [OF rest] show ?thesis
      by (simp del: consume_loop.simps)
  qed
qed

lemma pattern_version:
  assumes "arg_strings_pattern argv = Inr items"
    and "''--version'' \<in> set (options_region argv)"
    and "\<forall>s \<in> set (takeWhile (\<lambda>s. s \<noteq> ''--version'') argv). \<not> takes s Help \<and> \<not> refused s"
  shows "\<exists>pre post.
           items = pre @ (''--version'', Opt (Some Version, ''--version'', None, None)) # post
         \<and> (\<forall>it \<in> set pre. \<forall>t. snd it = Opt t \<longrightarrow>
              parse_optional (fst it) = Inr (Some t)
              \<and> \<not> takes (fst it) Help \<and> \<not> refused (fst it))"
  using assms
proof (induction argv arbitrary: items)
  case Nil
  then show ?case by (simp add: options_region_def)
next
  case (Cons a argv)
  from Cons.prems(2) have ns: "a \<noteq> ''--''" by (auto simp: options_region_def)
  with Cons.prems(1) obtain c its where
    c: "parse_optional a = Inr c" and its: "arg_strings_pattern argv = Inr its"
    and items: "items = (a, (case c of None \<Rightarrow> Arg | Some t \<Rightarrow> Opt t)) # its"
    by (auto split: sum.splits)
  show ?case
  proof (cases "a = ''--version''")
    case True
    with c have "c = Some (Some Version, ''--version'', None, None)"
      by (auto simp: parse_optional_version)
    with items True have i: "items
        = [] @ (''--version'', Opt (Some Version, ''--version'', None, None)) # its"
      by simp
    show ?thesis
    proof (intro exI conjI)
      show "items = [] @ (''--version'', Opt (Some Version, ''--version'', None, None)) # its"
        by (rule i)
      show "\<forall>it \<in> set []. \<forall>t. snd it = Opt t \<longrightarrow>
              parse_optional (fst it) = Inr (Some t)
              \<and> \<not> takes (fst it) Help \<and> \<not> refused (fst it)"
        by simp
    qed
  next
    case False
    with Cons.prems(2) ns have v: "''--version'' \<in> set (options_region argv)"
      by (simp add: options_region_Cons)
    from False Cons.prems(3) have a: "\<not> takes a Help" "\<not> refused a"
      and r: "\<forall>s \<in> set (takeWhile (\<lambda>s. s \<noteq> ''--version'') argv).
                \<not> takes s Help \<and> \<not> refused s"
      by simp_all
    from Cons.IH [OF its v r] obtain pre post where
      d: "its = pre @ (''--version'', Opt (Some Version, ''--version'', None, None)) # post"
      and q: "\<forall>it \<in> set pre. \<forall>t. snd it = Opt t \<longrightarrow>
              parse_optional (fst it) = Inr (Some t)
              \<and> \<not> takes (fst it) Help \<and> \<not> refused (fst it)"
      by (elim exE conjE)
    let ?it = "(a, (case c of None \<Rightarrow> Arg | Some t \<Rightarrow> Opt t))"
    from c a have "\<forall>t. snd ?it = Opt t \<longrightarrow>
        parse_optional (fst ?it) = Inr (Some t)
        \<and> \<not> takes (fst ?it) Help \<and> \<not> refused (fst ?it)"
      by (simp split: option.splits)
    with q have q': "\<forall>it \<in> set (?it # pre). \<forall>t. snd it = Opt t \<longrightarrow>
        parse_optional (fst it) = Inr (Some t)
        \<and> \<not> takes (fst it) Help \<and> \<not> refused (fst it)"
      by (simp del: split_paired_All)
    from items d have i: "items
        = (?it # pre) @ (''--version'', Opt (Some Version, ''--version'', None, None)) # post"
      by simp
    show ?thesis
    proof (intro exI conjI)
      show "items
          = (?it # pre) @ (''--version'', Opt (Some Version, ''--version'', None, None)) # post"
        by (rule i)
      show "\<forall>it \<in> set (?it # pre). \<forall>t. snd it = Opt t \<longrightarrow>
          parse_optional (fst it) = Inr (Some t)
          \<and> \<not> takes (fst it) Help \<and> \<not> refused (fst it)"
        by (rule q')
    qed
  qed
qed

text \<open>
  C6 as the specification states it: whenever \<^verbatim>\<open>--version\<close> is supplied, the process
  prints the version string and exits with status 0 without spawning a child process,
  whatever else is on the command line. The parser has more than the four tool flags and
  \<^verbatim>\<open>--version\<close>. With the help option before \<^verbatim>\<open>--version\<close> the process prints the
  help, not the version. An ambiguous abbreviation anywhere before \<^verbatim>\<open>--\<close>, or a flag
  given a value before \<^verbatim>\<open>--version\<close>, ends the process with a usage error and status
  2. Behind \<^verbatim>\<open>--\<close> the string \<^verbatim>\<open>--version\<close> is the directory argument.
\<close>

theorem version_query_counterexample:
  "prints (main (example_env 0) ''main.py'' [''-h'', ''--version'']) = [Help_text]
   \<and> exit_status (main (example_env 0) ''main.py'' [''--version'', ''--p'']) = 2
   \<and> prints (main (example_env 0) ''main.py'' [''--version'', ''--p''])
       = [Usage_error (Ambiguous_option ''--p'' [''--pylint'', ''--pyre''])]
   \<and> exit_status (main (example_env 0) ''main.py'' [''--bandit=1'', ''--version'']) = 2
   \<and> prints (main (example_env 0) ''main.py'' [''--bandit=1'', ''--version''])
       = [Usage_error (Ignored_explicit_argument Store_bandit ''1'')]
   \<and> exit_status (main (example_env 0) ''main.py'' [''--'', ''--version'']) = 1
   \<and> prints (main (example_env 0) ''main.py'' [''--'', ''--version'']) = []"
  by code_simp

text \<open>
  C6, amended. Whenever \<^verbatim>\<open>--version\<close> is supplied before any \<^verbatim>\<open>--\<close>, no argument
  string before \<^verbatim>\<open>--\<close> is an ambiguous abbreviation, and no argument string before the
  first \<^verbatim>\<open>--version\<close> takes the help action or is a flag given a value, the process
  prints the version string, the program name followed by \<^verbatim>\<open>1.0.0\<close>, exits with status
  0, and spawns no child process. Tool flags and strings that do not start with \<^verbatim>\<open>-\<close>
  meet these conditions (lemma \<open>simple_strings_pass\<close>), so this holds for every
  combination of the four tool flags and whatever the directory arguments are.
\<close>

theorem version_query:
  assumes "''--version'' \<in> set (options_region argv)"
    and "\<forall>s \<in> set (options_region argv). \<not> ambiguous s"
    and "\<forall>s \<in> set (takeWhile (\<lambda>s. s \<noteq> ''--version'') argv). \<not> takes s Help \<and> \<not> refused s"
  shows "exit_status (main env prog argv) = 0
       \<and> prints (main env prog argv) = [Version_text (prog @ '' '' @ VERSION)]
       \<and> spawns (main env prog argv) = []"
proof -
  from pattern_accepted [OF assms(2)] obtain items where
    p: "arg_strings_pattern argv = Inr items" ..
  from pattern_version [OF p assms(1,3)] obtain pre post where
    d: "items = pre @ (''--version'', Opt (Some Version, ''--version'', None, None)) # post"
    and q: "\<forall>it \<in> set pre. \<forall>t. snd it = Opt t \<longrightarrow>
              parse_optional (fst it) = Inr (Some t)
              \<and> \<not> takes (fst it) Help \<and> \<not> refused (fst it)"
    by (elim exE conjE)
  have "parse_args prog argv = Inl (SystemExit 0 (Version_text (prog @ '' '' @ VERSION)))"
    by (simp add: parse_args_def parse_known_args_def p d consume_loop_reaches_version [OF q])
  then have "main env prog argv
      = (0, start\<lparr>stdio := [Version_text (prog @ '' '' @ VERSION)]\<rparr>)"
    by (rule main_parser_exit)
  then show ?thesis
    by (simp add: exit_status_def prints_def spawns_def start_def)
qed

theorem version_query_witness:
  "(exit_status (main (example_env 0) ''main.py''
      [''src'', ''--bandit'', ''--version'', ''--pyre'']) = 0
   \<and> prints (main (example_env 0) ''main.py''
      [''src'', ''--bandit'', ''--version'', ''--pyre'']) = [Version_text ''main.py 1.0.0'']
   \<and> spawns (main (example_env 0) ''main.py''
      [''src'', ''--bandit'', ''--version'', ''--pyre'']) = [])
   \<and> (exit_status (main (example_env 0) ''main.py''
      [''--nope'', ''--version'', ''-h'', ''--'', ''--p'']) = 0
   \<and> prints (main (example_env 0) ''main.py''
      [''--nope'', ''--version'', ''-h'', ''--'', ''--p'']) = [Version_text ''main.py 1.0.0'']
   \<and> spawns (main (example_env 0) ''main.py''
      [''--nope'', ''--version'', ''-h'', ''--'', ''--p'']) = [])"
proof -
  let ?argv = "[''src'', ''--bandit'', ''--version'', ''--pyre'']"
  let ?argv' = "[''--nope'', ''--version'', ''-h'', ''--'', ''--p'']"
  have m: "''--version'' \<in> set (options_region ?argv)" by (simp add: options_region_def)
  have a: "\<forall>s \<in> set (options_region ?argv). \<not> ambiguous s" by code_simp
  have b: "\<forall>s \<in> set (takeWhile (\<lambda>s. s \<noteq> ''--version'') ?argv).
             \<not> takes s Help \<and> \<not> refused s"
    by code_simp
  have m': "''--version'' \<in> set (options_region ?argv')" by (simp add: options_region_def)
  have a': "\<forall>s \<in> set (options_region ?argv'). \<not> ambiguous s" by code_simp
  have b': "\<forall>s \<in> set (takeWhile (\<lambda>s. s \<noteq> ''--version'') ?argv').
             \<not> takes s Help \<and> \<not> refused s"
    by code_simp
  show ?thesis
    using version_query [OF m a b, of "example_env 0" "''main.py''"]
      version_query [OF m' a' b', of "example_env 0" "''main.py''"]
    by (simp add: VERSION_def)
qed

subsection \<open>Command lines that the parser rejects\<close>

lemma pattern_quiet:
  assumes "arg_strings_pattern argv = Inr items"
    and "\<forall>s \<in> set (options_region argv). \<not> takes s Help \<and> \<not> takes s Version"
  shows "\<forall>it \<in> set items. \<forall>t. snd it = Opt t \<longrightarrow>
           parse_optional (fst it) = Inr (Some t)
           \<and> \<not> takes (fst it) Help \<and> \<not> takes (fst it) Version"
proof (intro ballI allI impI)
  fix it t
  assume i: "it \<in> set items" and k: "snd it = Opt t"
  from i have "(fst it, snd it) \<in> set items" by simp
  with k have "(fst it, Opt t) \<in> set items" by simp
  from pattern_Opt [OF assms(1) this] assms(2)
  show "parse_optional (fst it) = Inr (Some t)
      \<and> \<not> takes (fst it) Help \<and> \<not> takes (fst it) Version"
    by simp
qed

text \<open>With an unknown flag before \<^verbatim>\<open>--\<close>, or with no argument, the parser returns no
  namespace.\<close>

lemma parse_args_not_accepted:
  assumes "(\<exists>s \<in> set (options_region argv). unknown_flag s) \<or> arguments argv = []"
  shows "parse_args prog argv \<noteq> Inr ns"
proof
  assume "parse_args prog argv = Inr ns"
  from parse_args_Inr [OF this] obtain items ns0 rest rest' where
    p: "arg_strings_pattern argv = Inr items"
    and l: "consume_loop prog items default_namespace [] = Inr (ns0, [], rest)"
    and c: "consume_positionals ns0 rest = (ns, rest')"
    and d: "directory ns \<noteq> None"
    by (elim exE conjE)
  from assms show False
  proof
    assume "\<exists>s \<in> set (options_region argv). unknown_flag s"
    then obtain s where s: "s \<in> set (options_region argv)"
      "parse_optional s = Inr (Some (None, s, None, None))"
      by (auto simp: unknown_flag_def)
    from pattern_Opt_mem [OF p s] have "(s, Opt (None, s, None, None)) \<in> set items" .
    then have "\<exists>it \<in> set items. \<exists>os sep e. snd it = Opt (None, os, sep, e)" by force
    then have "([]::string list) \<noteq> []
        \<or> (\<exists>it \<in> set items. \<exists>os sep e. snd it = Opt (None, os, sep, e))" ..
    from consume_loop_extras [OF l this] show False by simp
  next
    assume "arguments argv = []"
    from pattern_no_arguments [OF p this] obtain opts tail where
      i: "items = opts @ tail" and o: "\<forall>it \<in> set opts. is_option it"
      and t: "tail = [] \<or> tail = [(''--'', Sep)]"
      by (elim exE conjE)
    from t have n: "\<not> list_ex is_option tail" by (auto simp: is_option_def)
    have "directory default_namespace = None" by (simp add: default_namespace_def)
    from consume_loop_options [OF l [unfolded i] o n this]
    have "directory ns0 = None" and "rest = tail" by simp_all
    with c d t show False by (auto simp: consume_positionals_def)
  qed
qed

lemma parse_args_rejects:
  assumes "\<forall>s \<in> set (options_region argv). \<not> takes s Help \<and> \<not> takes s Version"
    and "(\<exists>s \<in> set (options_region argv). unknown_flag s) \<or> arguments argv = []"
  shows "\<exists>e. parse_args prog argv = Inl (parser_error e)"
proof (cases "parse_args prog argv")
  case (Inl x)
  from parse_args_Inl [OF Inl] show ?thesis
  proof
    assume "\<exists>e. x = parser_error e"
    with Inl show ?thesis by auto
  next
    assume "\<exists>items. arg_strings_pattern argv = Inr items
        \<and> consume_loop prog items default_namespace [] = Inl x"
    then obtain items where p: "arg_strings_pattern argv = Inr items"
      and l: "consume_loop prog items default_namespace [] = Inl x"
      by (elim exE conjE)
    from consume_loop_quiet [OF pattern_quiet [OF p assms(1)] l] Inl show ?thesis by auto
  qed
next
  case (Inr ns)
  with parse_args_not_accepted [OF assms(2), of prog ns] show ?thesis by simp
qed

text \<open>
  C8 as the specification states it: every command line with an unknown flag, and every
  command line without the positional directory argument and without \<^verbatim>\<open>--version\<close>,
  ends in a usage error and a non-zero exit status. The parser also has the help option
  that \<^verbatim>\<open>ArgumentParser\<close> adds by default. The command line \<^verbatim>\<open>-h\<close> has no
  argument and no \<^verbatim>\<open>--version\<close>; the process prints the help and exits with status
  0. The same happens when an unknown flag stands before \<^verbatim>\<open>-h\<close>.
\<close>

theorem usage_errors_counterexample:
  "arguments [''-h''] = [] \<and> ''--version'' \<notin> set [''-h'']
   \<and> exit_status (main (example_env 0) ''main.py'' [''-h'']) = 0
   \<and> prints (main (example_env 0) ''main.py'' [''-h'']) = [Help_text]
   \<and> unknown_flag ''--nope'' \<and> ''--version'' \<notin> set [''--nope'', ''-h'']
   \<and> exit_status (main (example_env 0) ''main.py'' [''--nope'', ''-h'']) = 0
   \<and> prints (main (example_env 0) ''main.py'' [''--nope'', ''-h'']) = [Help_text]"
  by code_simp

text \<open>
  C8, amended. For every command line with an unknown flag before \<^verbatim>\<open>--\<close>, and for
  every command line with no argument (no string before \<^verbatim>\<open>--\<close> that the parser takes
  for a positional, and nothing behind \<^verbatim>\<open>--\<close>), no child process is spawned; and
  unless an argument string before \<^verbatim>\<open>--\<close> takes the help or the version action,
  argument parsing produces a usage error and the process exits with status 2.
\<close>

theorem usage_errors:
  assumes "(\<exists>s \<in> set (options_region argv). unknown_flag s) \<or> arguments argv = []"
  shows "spawns (main env prog argv) = []
       \<and> ((\<forall>s \<in> set (options_region argv). \<not> takes s Help \<and> \<not> takes s Version) \<longrightarrow>
            (\<exists>e. prints (main env prog argv) = [Usage_error e])
            \<and> exit_status (main env prog argv) = 2)"
proof (intro conjI impI)
  from parse_args_not_accepted [OF assms, of prog]
  obtain x where "parse_args prog argv = Inl x" by (cases "parse_args prog argv") auto
  then obtain status out where "parse_args prog argv = Inl (SystemExit status out)"
    by (cases x) simp
  then have "main env prog argv = (status, start\<lparr>stdio := [out]\<rparr>)"
    by (rule main_parser_exit)
  then show "spawns (main env prog argv) = []"
    by (simp add: spawns_def start_def)
next
  assume "\<forall>s \<in> set (options_region argv). \<not> takes s Help \<and> \<not> takes s Version"
  from parse_args_rejects [OF this assms] obtain e where
    "parse_args prog argv = Inl (SystemExit 2 (Usage_error e))"
    by (auto simp: parser_error_def)
  then have m: "main env prog argv = (2, start\<lparr>stdio := [Usage_error e]\<rparr>)"
    by (rule main_parser_exit)
  then show "\<exists>e. prints (main env prog argv) = [Usage_error e]"
    by (simp add: prints_def)
  from m show "exit_status (main env prog argv) = 2"
    by (simp add: exit_status_def)
qed

theorem usage_errors_witness:
  "(spawns (main (example_env 0) ''main.py'' [''--nope'', ''src'']) = []
     \<and> (\<exists>e. prints (main (example_env 0) ''main.py'' [''--nope'', ''src'']) = [Usage_error e])
     \<and> exit_status (main (example_env 0) ''main.py'' [''--nope'', ''src'']) = 2)
   \<and> (spawns (main (example_env 0) ''main.py'' [''--bandit'', ''--'']) = []
     \<and> (\<exists>e. prints (main (example_env 0) ''main.py'' [''--bandit'', ''--'']) = [Usage_error e])
     \<and> exit_status (main (example_env 0) ''main.py'' [''--bandit'', ''--'']) = 2)
   \<and> (spawns (main (example_env 0) ''main.py'' [''--version=1'', ''-h=x'']) = []
     \<and> (\<exists>e. prints (main (example_env 0) ''main.py'' [''--version=1'', ''-h=x''])
            = [Usage_error e])
     \<and> exit_status (main (example_env 0) ''main.py'' [''--version=1'', ''-h=x'']) = 2)"
proof -
  let ?a1 = "[''--nope'', ''src'']"
  let ?a2 = "[''--bandit'', ''--'']"
  let ?a3 = "[''--version=1'', ''-h=x'']"
  have q1: "\<forall>s \<in> set (options_region ?a1). \<not> takes s Help \<and> \<not> takes s Version"
    by code_simp
  have n: "unknown_flag ''--nope''" by code_simp
  have "''--nope'' \<in> set (options_region ?a1)"
    by (simp add: options_region_def)
  with n have "\<exists>s \<in> set (options_region ?a1). unknown_flag s" ..
  then have u1: "(\<exists>s \<in> set (options_region ?a1). unknown_flag s) \<or> arguments ?a1 = []" ..
  have q2: "\<forall>s \<in> set (options_region ?a2). \<not> takes s Help \<and> \<not> takes s Version"
    by code_simp
  have "arguments ?a2 = []" by code_simp
  then have u2: "(\<exists>s \<in> set (options_region ?a2). unknown_flag s) \<or> arguments ?a2 = []" ..
  have q3: "\<forall>s \<in> set (options_region ?a3). \<not> takes s Help \<and> \<not> takes s Version"
    by code_simp
  have "arguments ?a3 = []" by code_simp
  then have u3: "(\<exists>s \<in> set (options_region ?a3). unknown_flag s) \<or> arguments ?a3 = []" ..
  show ?thesis
    using usage_errors [OF u1, of "example_env 0" "''main.py''"] q1
      usage_errors [OF u2, of "example_env 0" "''main.py''"] q2
      usage_errors [OF u3, of "example_env 0" "''main.py''"] q3
    by blast
qed

text \<open>
  C10. A command line that the argument parser rejects makes the process exit with status
  exactly 2, not with the status 1 of the failures that \<^verbatim>\<open>main\<close> handles: whenever
  \<^verbatim>\<open>parse_args\<close> ends the process with a usage error (an unknown flag, a missing
  directory argument, an ambiguous abbreviation, a value given to a flag), the exit status
  is 2, and no child process has been spawned.
\<close>

theorem rejected_exit_status:
  assumes "parse_args prog argv = Inl (SystemExit status (Usage_error e))"
  shows "exit_status (main env prog argv) = 2
       \<and> exit_status (main env prog argv) \<noteq> 1
       \<and> spawns (main env prog argv) = []"
proof -
  from parse_args_exits [OF assms] have "status = 2"
    by (auto simp: parser_error_def)
  moreover from assms
  have "main env prog argv = (status, start\<lparr>stdio := [Usage_error e]\<rparr>)"
    by (rule main_parser_exit)
  ultimately show ?thesis
    by (simp add: exit_status_def spawns_def start_def)
qed

theorem rejected_exit_status_witness:
  "(exit_status (main (example_env 0) ''main.py'' [''--nope'', ''src'']) = 2
     \<and> exit_status (main (example_env 0) ''main.py'' [''--nope'', ''src'']) \<noteq> 1
     \<and> spawns (main (example_env 0) ''main.py'' [''--nope'', ''src'']) = [])
   \<and> (exit_status (main (example_env 0) ''main.py'' []) = 2
     \<and> exit_status (main (example_env 0) ''main.py'' []) \<noteq> 1
     \<and> spawns (main (example_env 0) ''main.py'' []) = [])"
proof -
  have p1: "parse_args ''main.py'' [''--nope'', ''src'']
      = Inl (SystemExit 2 (Usage_error (Unrecognized_arguments [''--nope''])))"
    by code_simp
  have p2: "parse_args ''main.py'' []
      = Inl (SystemExit 2 (Usage_error (Required_arguments [''directory''])))"
    by code_simp
  show ?thesis
    using rejected_exit_status [OF p1, of "example_env 0"]
      rejected_exit_status [OF p2, of "example_env 0"]
    by blast
qed

end
